theory Spec2Isabelle
  imports Main
begin


section \<open>Strings as Python handles them\<close>

text \<open>
  Python \<open>str\<close> values are modelled as \<open>string\<close>, a list of characters, each character
  standing for the Unicode code point of its number, 0 to 255; a text with a code point above
  255 is outside the model.
\<close>

definition digit_char :: "char \<Rightarrow> bool" where
  \<comment> \<open>one character accepted by \<open>str.isdigit\<close>: below code point 256 these are the decimal
      digits and the superscripts two, three and one (U+00B2, U+00B3, U+00B9), which Unicode
      also classes as digits\<close>
  "digit_char c = (c \<in> set ''0123456789'' \<or> c = CHR 0xB2 \<or> c = CHR 0xB3 \<or> c = CHR 0xB9)"

definition isdigit :: "string \<Rightarrow> bool" where
  \<comment> \<open>\<open>s.isdigit()\<close>: at least one character, and all of them digits\<close>
  "isdigit s = (s \<noteq> [] \<and> list_all digit_char s)"

fun split_on :: "char \<Rightarrow> string \<Rightarrow> string list" where
  \<comment> \<open>\<open>s.split(sep)\<close> for a one-character separator: never the empty list\<close>
  "split_on sep [] = [[]]"
| "split_on sep (c # cs) =
     (if c = sep then [] # split_on sep cs
      else (case split_on sep cs of
              [] \<Rightarrow> [[c]]
            | p # ps \<Rightarrow> (c # p) # ps))"

fun join :: "string \<Rightarrow> string list \<Rightarrow> string" where
  \<comment> \<open>\<open>sep.join(parts)\<close>\<close>
  "join sep [] = []"
| "join sep [p] = p"
| "join sep (p # q # ps) = p @ sep @ join sep (q # ps)"

section \<open>Base id of a recurring series\<close>

definition get_base_id_from_event_id :: "string \<Rightarrow> string" where
  \<comment> \<open>\<open>CalendarDatabase.get_base_id_from_event_id\<close>\<close>
  "get_base_id_from_event_id event_id =
     (if CHR ''_'' \<in> set event_id then
        (let parts = split_on (CHR ''_'') event_id in
         if length parts \<ge> 2 then
           (let last_part = last parts in
            if length last_part = 15 \<and> last_part ! 8 = CHR ''T''
               \<and> isdigit (take 8 last_part) \<and> isdigit (drop 9 last_part)
            then join ''_'' (butlast parts)
            else event_id)
         else event_id)
      else event_id)"

section \<open>Comparing text as SQLite does\<close>

fun str_le :: "string \<Rightarrow> string \<Rightarrow> bool" where
  \<comment> \<open>\<open>a <= b\<close> on TEXT values under the BINARY collation: bytewise, a proper prefix is smaller\<close>
  "str_le [] b = True"
| "str_le (x # xs) [] = False"
| "str_le (x # xs) (y # ys) =
     (if x = y then str_le xs ys else (of_char x :: nat) < of_char y)"

definition str_lt :: "string \<Rightarrow> string \<Rightarrow> bool" where
  "str_lt a b = (\<not> str_le b a)"

definition sql_eq :: "string option \<Rightarrow> string option \<Rightarrow> bool" where
  \<comment> \<open>\<open>column = ?\<close> in a WHERE clause: a comparison with NULL never selects the row\<close>
  "sql_eq col param = (case (col, param) of (Some a, Some b) \<Rightarrow> a = b | _ \<Rightarrow> False)"

definition truthy :: "string option \<Rightarrow> bool" where
  \<comment> \<open>Python truth value of a \<open>str\<close> or \<open>None\<close>\<close>
  "truthy v = (case v of None \<Rightarrow> False | Some s \<Rightarrow> s \<noteq> [])"

definition or_text :: "string option \<Rightarrow> string \<Rightarrow> string option" where
  \<comment> \<open>\<open>v or d\<close> for a text default \<open>d\<close>\<close>
  "or_text v d = (if truthy v then v else Some d)"

section \<open>The datetime library\<close>

text \<open>
  The calendar arithmetic and the ISO 8601 parser of Python's \<open>datetime\<close> module, which the
  source calls, as CPython 3.11 implements them. A datetime is kept as the number of
  microseconds its wall-clock fields lie after 0001-01-01T00:00:00, with its UTC offset in
  microseconds (\<open>None\<close> for a naive datetime).
\<close>

datatype error = OverflowError | ProgrammingError

record datetime =
  wall :: int
  tzinfo :: "int option"

definition is_leap :: "int \<Rightarrow> bool" where
  "is_leap y = (y mod 4 = 0 \<and> (y mod 100 \<noteq> 0 \<or> y mod 400 = 0))"

definition days_in_month :: "int \<Rightarrow> int \<Rightarrow> int" where
  "days_in_month y m =
     (if m = 2 then (if is_leap y then 29 else 28)
      else if m = 4 \<or> m = 6 \<or> m = 9 \<or> m = 11 then 30 else 31)"

definition days_before_year :: "int \<Rightarrow> int" where
  "days_before_year y = (y - 1) * 365 + (y - 1) div 4 - (y - 1) div 100 + (y - 1) div 400"

definition DAYS_BEFORE_MONTH :: "int list" where
  "DAYS_BEFORE_MONTH = [-1, 0, 31, 59, 90, 120, 151, 181, 212, 243, 273, 304, 334]"

definition days_before_month :: "int \<Rightarrow> int \<Rightarrow> int" where
  "days_before_month y m = DAYS_BEFORE_MONTH ! nat m + (if m > 2 \<and> is_leap y then 1 else 0)"

definition ymd2ord :: "int \<Rightarrow> int \<Rightarrow> int \<Rightarrow> int" where
  \<comment> \<open>ordinal of a date, 0001-01-01 being day 1\<close>
  "ymd2ord y m d = days_before_year y + days_before_month y m + d"

definition ord2ymd :: "int \<Rightarrow> int \<times> int \<times> int" where
  \<comment> \<open>the date of an ordinal, by the 400, 100, 4 and 1 year cycles\<close>
  "ord2ymd ordinal =
     (let n = ordinal - 1;
          n400 = n div 146097; n = n mod 146097;
          n100 = n div 36524; n = n mod 36524;
          n4 = n div 1461; n = n mod 1461;
          n1 = n div 365; n = n mod 365;
          year = n400 * 400 + 1 + n100 * 100 + n4 * 4 + n1
      in if n1 = 4 \<or> n100 = 4 then (year - 1, 12, 31)
         else
           (let leapyear = (n1 = 3 \<and> (n4 \<noteq> 24 \<or> n100 = 3));
                month = (n + 50) div 32;
                preceding = DAYS_BEFORE_MONTH ! nat month
                              + (if month > 2 \<and> leapyear then 1 else 0)
            in if preceding > n
               then (let month' = month - 1;
                         preceding' = preceding
                           - ((if month' = 2 then 28
                               else if month' = 4 \<or> month' = 6 \<or> month' = 9 \<or> month' = 11
                               then 30 else 31)
                              + (if month' = 2 \<and> leapyear then 1 else 0))
                     in (year, month', n - preceding' + 1))
               else (year, month, n - preceding + 1)))"

definition MAX_WALL :: int where
  \<comment> \<open>9999-12-31T23:59:59.999999, the last microsecond a datetime can hold\<close>
  "MAX_WALL = 3652059 * 86400 * 1000000 - 1"

definition shift :: "datetime \<Rightarrow> int \<Rightarrow> error + datetime" where
  \<comment> \<open>\<open>dt + timedelta(microseconds=k)\<close>: raises OverflowError outside years 1 to 9999\<close>
  "shift dt k =
     (let w = wall dt + k
      in if 0 \<le> w \<and> w \<le> MAX_WALL then Inr (dt\<lparr>wall := w\<rparr>) else Inl OverflowError)"

definition utf8 :: "string \<Rightarrow> nat list" where
  \<comment> \<open>the UTF-8 bytes of a text: a code point from 128 to 255 takes two bytes\<close>
  "utf8 s =
     concat (map (\<lambda>ch. let c = of_char ch
                       in if c < 128 then [c] else [192 + c div 64, 128 + c mod 64]) s)"

definition byte_at :: "nat list \<Rightarrow> nat \<Rightarrow> nat" where
  \<comment> \<open>the byte at a position; the bytes of the text are followed by a zero byte\<close>
  "byte_at b i = (if i < length b then b ! i else 0)"

definition is_digit :: "nat \<Rightarrow> bool" where
  \<comment> \<open>an ASCII decimal digit\<close>
  "is_digit c = (48 \<le> c \<and> c \<le> 57)"

definition parse_digits :: "nat list \<Rightarrow> nat \<Rightarrow> nat \<Rightarrow> (int \<times> nat) option" where
  \<comment> \<open>\<open>num_digits\<close> decimal digits from position \<open>p\<close>: their value and the position after
      them\<close>
  "parse_digits b p num_digits =
     (let ds = map (byte_at b) [p ..< p + num_digits]
      in if list_all is_digit ds
         then Some (foldl (\<lambda>v c. 10 * v + (int c - 48)) 0 ds, p + num_digits)
         else None)"

definition find_isoformat_datetime_separator :: "nat list \<Rightarrow> nat option" where
  \<comment> \<open>where the date part ends: after \<open>YYYY-MM-DD\<close> (10), \<open>YYYYMMDD\<close> (8), or a week date
      \<open>YYYY-Www\<close> (8), \<open>YYYY-Www-D\<close> (10), \<open>YYYYWww\<close> (7), \<open>YYYYWwwD\<close> (8)\<close>
  "find_isoformat_datetime_separator b =
     (let len = length b
      in if len = 7 then Some 7
         else if byte_at b 4 = of_char CHR ''-'' then
           (if byte_at b 5 = of_char CHR ''W'' then
              (if len < 8 then None
               else if len > 8 \<and> byte_at b 8 = of_char CHR ''-'' then
                 (if len = 9 then None
                  else if len > 10 \<and> is_digit (byte_at b 10) then Some 8
                  else Some 10)
               else Some 8)
            else Some 10)
         else if byte_at b 4 = of_char CHR ''W'' then
           (let idx = 7 + length (takeWhile is_digit (drop 7 b))
            in if idx < 9 then Some idx else if even idx then Some 7 else Some 8)
         else Some 8)"

definition isoweek1monday :: "int \<Rightarrow> int" where
  \<comment> \<open>the ordinal of the Monday that starts ISO week 1 of a year\<close>
  "isoweek1monday year =
     (let firstday = ymd2ord year 1 1;
          firstweekday = (firstday + 6) mod 7;
          week1monday = firstday - firstweekday
      in if firstweekday > 3 then week1monday + 7 else week1monday)"

definition isoweek_to_gregorian :: "int \<Rightarrow> int \<Rightarrow> int \<Rightarrow> (int \<times> int \<times> int) option" where
  \<comment> \<open>the date of an ISO year, week and weekday; week 53 exists in a year that starts on a
      Thursday, and in a leap year that starts on a Wednesday\<close>
  "isoweek_to_gregorian year week day =
     (if year < 1 \<or> 9999 < year then None
      else if \<not> (0 < week \<and> week < 53)
              \<and> \<not> (week = 53
                     \<and> (let first_weekday = ymd2ord year 1 1 mod 7
                         in first_weekday = 4 \<or> (first_weekday = 3 \<and> is_leap year)))
      then None
      else if \<not> (0 < day \<and> day < 8) then None
      else Some (ord2ymd (isoweek1monday year + (week - 1) * 7 + (day - 1))))"

definition parse_isoformat_date :: "nat list \<Rightarrow> nat \<Rightarrow> (int \<times> int \<times> int) option" where
  \<comment> \<open>year, month and day of the date part, which is the first \<open>len\<close> bytes\<close>
  "parse_isoformat_date b len =
     (case parse_digits b 0 4 of
        None \<Rightarrow> None
      | Some (year, p0) \<Rightarrow>
          (let uses_separator = (byte_at b p0 = of_char CHR ''-'');
               p = (if uses_separator then p0 + 1 else p0)
           in if byte_at b p = of_char CHR ''W'' then
                (case parse_digits b (p + 1) 2 of
                   None \<Rightarrow> None
                 | Some (iso_week, p1) \<Rightarrow>
                     if p1 < len then
                       (if uses_separator \<and> byte_at b p1 \<noteq> of_char CHR ''-'' then None
                        else
                          (case parse_digits b (if uses_separator then p1 + 1 else p1) 1 of
                             None \<Rightarrow> None
                           | Some (iso_day, _) \<Rightarrow> isoweek_to_gregorian year iso_week iso_day))
                     else isoweek_to_gregorian year iso_week 1)
              else
                (case parse_digits b p 2 of
                   None \<Rightarrow> None
                 | Some (month, p1) \<Rightarrow>
                     if uses_separator \<and> byte_at b p1 \<noteq> of_char CHR ''-'' then None
                     else
                       (case parse_digits b (if uses_separator then p1 + 1 else p1) 2 of
                          None \<Rightarrow> None
                        | Some (day, _) \<Rightarrow> Some (year, month, day)))))"

datatype hms = Malformed | Finished "int list" bool | Fraction "int list" nat

fun parse_hh_mm_ss :: "nat list \<Rightarrow> nat \<Rightarrow> nat \<Rightarrow> nat \<Rightarrow> bool \<Rightarrow> int list \<Rightarrow> hms" where
  \<comment> \<open>the loop over at most \<open>n\<close> further two-digit components, from position \<open>p\<close> of a part
      that ends at \<open>p_end\<close>. The first component decides whether colons separate them.
      \<open>Finished vals extra\<close>: the part is used up, \<open>extra\<close> telling that the last byte read was
      not the zero byte; \<open>Fraction vals p\<close>: a fraction is to be read at \<open>p\<close>.\<close>
  "parse_hh_mm_ss b p_end 0 p has_separator vals = Fraction vals p"
| "parse_hh_mm_ss b p_end (Suc n) p has_separator vals =
     (case parse_digits b p 2 of
        None \<Rightarrow> Malformed
      | Some (v, p1) \<Rightarrow>
          (let c = byte_at b p1;
               has_separator' = (if vals = [] then c = of_char CHR '':'' else has_separator);
               vals' = vals @ [v]
           in if p1 + 1 \<ge> p_end then Finished vals' (c \<noteq> 0)
              else if has_separator' \<and> c = of_char CHR '':''
              then parse_hh_mm_ss b p_end n (p1 + 1) has_separator' vals'
              else if c = of_char CHR ''.'' \<or> c = of_char CHR '',''
              then Fraction vals' (p1 + 1)
              else if \<not> has_separator'
              then parse_hh_mm_ss b p_end n p1 has_separator' vals'
              else Malformed))"

definition component :: "int list \<Rightarrow> nat \<Rightarrow> int" where
  \<comment> \<open>a component that was not given is zero\<close>
  "component vals k = (if k < length vals then vals ! k else 0)"

definition parse_hh_mm_ss_ff :: "nat list \<Rightarrow> nat \<Rightarrow> nat
    \<Rightarrow> (int \<times> int \<times> int \<times> int \<times> bool) option" where
  \<comment> \<open>\<open>HH[:MM[:SS[.fff[fff]]]]\<close>, with or without the colons, \<open>.\<close> or \<open>,\<close> before the
      fraction, from position \<open>p\<close> of a part that ends at \<open>p_end\<close>: hour, minute, second,
      microsecond, and whether bytes are left over. Digits of the fraction after the sixth
      are skipped.\<close>
  "parse_hh_mm_ss_ff b p p_end =
     (case parse_hh_mm_ss b p_end 3 p True [] of
        Malformed \<Rightarrow> None
      | Finished vals extra \<Rightarrow>
          Some (component vals 0, component vals 1, component vals 2, 0, extra)
      | Fraction vals q \<Rightarrow>
          (let len_remains = p_end - q;
               to_parse = (if len_remains \<ge> 6 then 6 else len_remains)
           in case parse_digits b q to_parse of
                None \<Rightarrow> None
              | Some (us, q1) \<Rightarrow>
                  (let microsecond = us * 10 ^ (6 - to_parse);
                       q2 = q1 + length (takeWhile is_digit (drop q1 b))
                   in Some (component vals 0, component vals 1, component vals 2, microsecond,
                            byte_at b q2 \<noteq> 0))))"

definition tz_byte :: "nat \<Rightarrow> bool" where
  "tz_byte c = (c = of_char CHR ''Z'' \<or> c = of_char CHR ''+'' \<or> c = of_char CHR ''-'')"

definition parse_isoformat_time :: "nat list \<Rightarrow> nat
    \<Rightarrow> (int \<times> int \<times> int \<times> int \<times> int option) option" where
  \<comment> \<open>the time part, which starts at position \<open>p\<close>: hour, minute, second, microsecond and
      the UTC offset in microseconds. The offset starts at the first \<open>Z\<close>, \<open>+\<close> or \<open>-\<close>;
      bytes left over before it are ignored. An offset of zero seconds is UTC whatever its
      fraction; any other must lie strictly between minus and plus 24 hours.\<close>
  "parse_isoformat_time b p =
     (let p_end = length b
      in if p_end \<le> p then None
         else
           (let tzinfo_pos = p + length (takeWhile (\<lambda>c. \<not> tz_byte c) (drop p b))
            in case parse_hh_mm_ss_ff b p tzinfo_pos of
                 None \<Rightarrow> None
               | Some (hour, minute, second, microsecond, extra) \<Rightarrow>
                   if tzinfo_pos = p_end then
                     (if extra then None else Some (hour, minute, second, microsecond, None))
                   else if byte_at b tzinfo_pos = of_char CHR ''Z'' then
                     (if byte_at b (tzinfo_pos + 1) \<noteq> 0 then None
                      else Some (hour, minute, second, microsecond, Some 0))
                   else
                     (case parse_hh_mm_ss_ff b (tzinfo_pos + 1) p_end of
                        None \<Rightarrow> None
                      | Some (tzhour, tzminute, tzsecond, tzmicrosecond, tzextra) \<Rightarrow>
                          (let tzsign = (if byte_at b tzinfo_pos = of_char CHR ''-''
                                         then - 1 else 1);
                               tzoffset = tzsign * (tzhour * 3600 + tzminute * 60 + tzsecond);
                               off = tzoffset * 1000000 + tzsign * tzmicrosecond
                           in if tzextra then None
                              else if tzoffset = 0
                              then Some (hour, minute, second, microsecond, Some 0)
                              else if - 86400000000 < off \<and> off < 86400000000
                              then Some (hour, minute, second, microsecond, Some off)
                              else None))))"

definition new_datetime :: "int \<times> int \<times> int \<Rightarrow> int \<times> int \<times> int \<times> int \<times> int option
    \<Rightarrow> datetime option" where
  \<comment> \<open>the constructor: ValueError, here \<open>None\<close>, for a field out of range\<close>
  "new_datetime date_components time_components =
     (case (date_components, time_components) of
        ((year, month, day), (hour, minute, second, microsecond, tz)) \<Rightarrow>
          if 1 \<le> year \<and> year \<le> 9999 \<and> 1 \<le> month \<and> month \<le> 12
             \<and> 1 \<le> day \<and> day \<le> days_in_month year month
             \<and> 0 \<le> hour \<and> hour \<le> 23 \<and> 0 \<le> minute \<and> minute \<le> 59
             \<and> 0 \<le> second \<and> second \<le> 59 \<and> 0 \<le> microsecond \<and> microsecond \<le> 999999
          then Some \<lparr>wall = (((ymd2ord year month day - 1) * 24 + hour) * 60 + minute) * 60
                               * 1000000 + second * 1000000 + microsecond,
                      tzinfo = tz\<rparr>
          else None)"

definition fromisoformat :: "string \<Rightarrow> datetime option" where
  \<comment> \<open>\<open>datetime.fromisoformat\<close> as CPython 3.11 implements it, on the UTF-8 bytes of the
      text; \<open>None\<close> stands for the ValueError raised on a text it does not accept. One
      character, of one or two bytes, stands between the date part and the time part.\<close>
  "fromisoformat date_string =
     (let b = utf8 date_string; len = length b
      in if len < 7 then None
         else
           (case find_isoformat_datetime_separator b of
              None \<Rightarrow> None
            | Some separator_location \<Rightarrow>
                (case parse_isoformat_date b separator_location of
                   None \<Rightarrow> None
                 | Some date_components \<Rightarrow>
                     if len > separator_location then
                       (case parse_isoformat_time b
                               (separator_location
                                + (if byte_at b separator_location < 128 then 1 else 2)) of
                          None \<Rightarrow> None
                        | Some time_components \<Rightarrow> new_datetime date_components time_components)
                     else new_datetime date_components (0, 0, 0, 0, None))))"

definition pad2 :: "int \<Rightarrow> string" where
  "pad2 n = [char_of (48 + nat (n div 10 mod 10)), char_of (48 + nat (n mod 10))]"

definition pad4 :: "int \<Rightarrow> string" where
  "pad4 n = pad2 (n div 100) @ pad2 (n mod 100)"

definition pad6 :: "int \<Rightarrow> string" where
  "pad6 n = pad2 (n div 10000) @ pad2 (n div 100 mod 100) @ pad2 (n mod 100)"

definition isoformat :: "datetime \<Rightarrow> string" where
  \<comment> \<open>\<open>dt.isoformat()\<close> of a datetime in UTC: the fraction is printed when it is not zero\<close>
  "isoformat dt =
     (let total = wall dt div 1000000; us = wall dt mod 1000000;
          days = total div 86400; secs = total mod 86400
      in case ord2ymd (days + 1) of
           (y, m, d) \<Rightarrow>
             pad4 y @ ''-'' @ pad2 m @ ''-'' @ pad2 d @ ''T'' @ pad2 (secs div 3600)
               @ '':'' @ pad2 (secs div 60 mod 60) @ '':'' @ pad2 (secs mod 60)
               @ (if us = 0 then [] else ''.'' @ pad6 us) @ ''+00:00'')"

section \<open>timezone_utils\<close>

definition normalize_to_utc :: "datetime \<Rightarrow> error + datetime" where
  \<comment> \<open>a naive datetime is taken as UTC; \<open>astimezone\<close> raises OverflowError when the
      UTC fields would leave years 1 to 9999\<close>
  "normalize_to_utc dt =
     (case tzinfo dt of
        None \<Rightarrow> Inr (dt\<lparr>tzinfo := Some 0\<rparr>)
      | Some off \<Rightarrow>
          (case shift dt (- off) of
             Inl e \<Rightarrow> Inl e
           | Inr u \<Rightarrow> Inr (u\<lparr>tzinfo := Some 0\<rparr>)))"

definition replace_Z :: "string \<Rightarrow> string" where
  \<comment> \<open>\<open>iso_str.replace('Z', '+00:00')\<close>: every occurrence\<close>
  "replace_Z s = concat (map (\<lambda>c. if c = CHR ''Z'' then ''+00:00'' else [c]) s)"

definition parse_iso_datetime :: "string option \<Rightarrow> datetime option" where
  "parse_iso_datetime iso_str =
     (case iso_str of
        None \<Rightarrow> None
      | Some s \<Rightarrow>
          if s = [] then None
          else
            (let s' = (if last s = CHR ''Z'' then replace_Z s else s)
             in case fromisoformat s' of
                  None \<Rightarrow> None
                | Some dt \<Rightarrow>
                    Some (case tzinfo dt of None \<Rightarrow> dt\<lparr>tzinfo := Some 0\<rparr> | Some _ \<Rightarrow> dt)))"

section \<open>The store\<close>

text \<open>
  One row of the \<open>appointments\<close> table. The primary key \<open>id\<close> is text; every other column
  is nullable (rows that predate the \<open>source\<close> column hold NULL there).
\<close>

record appointment =
  r_id :: string
  r_subject :: "string option"
  r_start_time :: "string option"
  r_end_time :: "string option"
  r_location :: "string option"
  r_organizer_email :: "string option"
  r_organizer_name :: "string option"
  r_attendees :: "string option"
  r_body_preview :: "string option"
  r_is_all_day :: "int option"
  r_source :: "string option"
  r_created_at :: "string option"
  r_updated_at :: "string option"

record ignored_base =
  b_base_id :: string
  b_subject :: "string option"
  b_ignored_at :: string
  b_reason :: "string option"

record ignored_event =
  i_event_id :: string
  i_subject :: "string option"
  i_start_time :: "string option"
  i_ignored_at :: string
  i_reason :: "string option"

record database =
  appointments :: "appointment list"
  ignored_base_ids :: "ignored_base list"
  ignored_event_ids :: "ignored_event list"

section \<open>Candidate events\<close>

text \<open>
  A candidate is a dictionary: each key is absent, or present with \<open>None\<close> or with a value.
  \<open>attendees\<close> is meant to be a serialized list; a caller that passes the list itself hands
  the storage engine a value it cannot bind.
\<close>

datatype 'a entry = Absent | Given "'a option"

datatype attendees_value = Serialized string | Unserialized

record event_data =
  e_id :: "string entry"
  e_subject :: "string entry"
  e_start_time :: "string entry"
  e_end_time :: "string entry"
  e_location :: "string entry"
  e_organizer_email :: "string entry"
  e_organizer_name :: "string entry"
  e_attendees :: "attendees_value entry"
  e_body_preview :: "string entry"
  e_is_all_day :: "int entry"
  e_source :: "string entry"

definition get :: "'a entry \<Rightarrow> 'a \<Rightarrow> 'a option" where
  \<comment> \<open>\<open>event_data.get(key, default)\<close>: the default only when the key is absent\<close>
  "get e d = (case e of Absent \<Rightarrow> Some d | Given v \<Rightarrow> v)"

definition get_none :: "'a entry \<Rightarrow> 'a option" where
  \<comment> \<open>\<open>event_data.get(key)\<close>\<close>
  "get_none e = (case e of Absent \<Rightarrow> None | Given v \<Rightarrow> v)"

definition empty_event :: event_data where
  "empty_event = \<lparr>e_id = Absent, e_subject = Absent, e_start_time = Absent, e_end_time = Absent,
     e_location = Absent, e_organizer_email = Absent, e_organizer_name = Absent,
     e_attendees = Absent, e_body_preview = Absent, e_is_all_day = Absent, e_source = Absent\<rparr>"

definition bind_attendees :: "attendees_value option \<Rightarrow> error + string option" where
  \<comment> \<open>binding the \<open>attendees\<close> parameter of a statement: on a list sqlite3 raises
      ProgrammingError (InterfaceError before Python 3.11)\<close>
  "bind_attendees v =
     (case v of
        None \<Rightarrow> Inr None
      | Some (Serialized s) \<Rightarrow> Inr (Some s)
      | Some Unserialized \<Rightarrow> Inl ProgrammingError)"

definition bind_integer :: "int option \<Rightarrow> error + int option" where
  \<comment> \<open>binding an integer parameter: sqlite3 raises OverflowError outside 64 bits\<close>
  "bind_integer v =
     (case v of
        None \<Rightarrow> Inr None
      | Some n \<Rightarrow>
          if - (2 ^ 63) \<le> n \<and> n < 2 ^ 63 then Inr (Some n) else Inl OverflowError)"

definition bind_values :: "event_data \<Rightarrow> error + string option" where
  \<comment> \<open>binding the parameters of an UPDATE or INSERT, in their order: \<open>attendees\<close> comes
      before \<open>is_all_day\<close>; the other parameters are text or \<open>None\<close> and always bind. The
      result is the bound \<open>attendees\<close>.\<close>
  "bind_values ev =
     (case bind_attendees (get (e_attendees ev) (Serialized ''[]'')) of
        Inl e \<Rightarrow> Inl e
      | Inr att \<Rightarrow>
          (case bind_integer (get (e_is_all_day ev) 0) of
             Inl e \<Rightarrow> Inl e
           | Inr _ \<Rightarrow> Inr att))"

section \<open>The Duplicate Finder\<close>

fun scan_rows :: "datetime \<Rightarrow> string option \<Rightarrow> string option \<Rightarrow> appointment list
    \<Rightarrow> error + string option" where
  \<comment> \<open>the loop over the fetched rows; an exception leaves the loop\<close>
  "scan_rows start_utc organizer_email exclude_id [] = Inr None"
| "scan_rows start_utc organizer_email exclude_id (row # rows) =
     (if Some (r_id row) = exclude_id then scan_rows start_utc organizer_email exclude_id rows
      else
        (case parse_iso_datetime (r_start_time row) of
           None \<Rightarrow> scan_rows start_utc organizer_email exclude_id rows
         | Some row_start_dt \<Rightarrow>
             (case normalize_to_utc row_start_dt of
                Inl e \<Rightarrow> Inl e
              | Inr row_start_utc \<Rightarrow>
                  if \<bar>wall start_utc - wall row_start_utc\<bar> < 60 * 1000000
                     \<and> or_text organizer_email [] = or_text (r_organizer_email row) []
                  then Inr (Some (r_id row))
                  else scan_rows start_utc organizer_email exclude_id rows)))"

definition start_le :: "appointment \<Rightarrow> appointment \<Rightarrow> bool" where
  \<comment> \<open>the order of \<open>start_time\<close> in an index and in \<open>ORDER BY start_time ASC\<close>: NULL
      first, then text bytewise\<close>
  "start_le a b =
     (case (r_start_time a, r_start_time b) of
        (None, _) \<Rightarrow> True
      | (Some x, None) \<Rightarrow> False
      | (Some x, Some y) \<Rightarrow> str_le x y)"

fun insert_by_start :: "appointment \<Rightarrow> appointment list \<Rightarrow> appointment list" where
  "insert_by_start row [] = [row]"
| "insert_by_start row (r # rs) =
     (if start_le r row then r # insert_by_start row rs else row # r # rs)"

definition order_by_start_time :: "appointment list \<Rightarrow> appointment list" where
  \<comment> \<open>rows by \<open>start_time\<close>; rows with the same \<open>start_time\<close> keep the order of the table\<close>
  "order_by_start_time rows = foldl (\<lambda>acc row. insert_by_start row acc) [] rows"

definition select_window :: "appointment list \<Rightarrow> string option \<Rightarrow> string option \<Rightarrow> string
    \<Rightarrow> string \<Rightarrow> string option \<Rightarrow> appointment list" where
  \<comment> \<open>the SELECT of \<open>find_duplicate\<close>: subject, source and the stored text of
      \<open>start_time\<close> between the two window texts; \<open>id != ?\<close> when \<open>exclude_id\<close> is truthy.
      The statement has no ORDER BY; the rows come from the index on subject, source and
      \<open>start_time\<close>, that is in the order of \<open>start_time\<close>.\<close>
  "select_window db subject src time_window_start time_window_end exclude_id =
     order_by_start_time
       (filter (\<lambda>row. sql_eq (r_subject row) subject \<and> sql_eq (r_source row) src
                  \<and> (case r_start_time row of
                        None \<Rightarrow> False
                      | Some st \<Rightarrow> str_le time_window_start st \<and> str_le st time_window_end)
                  \<and> (truthy exclude_id \<longrightarrow> Some (r_id row) \<noteq> exclude_id)) db)"

definition find_duplicate_body :: "appointment list \<Rightarrow> string option \<Rightarrow> string option
    \<Rightarrow> string option \<Rightarrow> string option \<Rightarrow> string option \<Rightarrow> error + string option" where
  \<comment> \<open>the body of the \<open>try\<close> block\<close>
  "find_duplicate_body db subject start_time organizer_email src exclude_id =
     (case parse_iso_datetime start_time of
        None \<Rightarrow> Inr None
      | Some start_dt \<Rightarrow>
          (case normalize_to_utc start_dt of
             Inl e \<Rightarrow> Inl e
           | Inr start_utc \<Rightarrow>
               (case shift start_utc (- 60 * 1000000) of
                  Inl e \<Rightarrow> Inl e
                | Inr lo \<Rightarrow>
                    (case shift start_utc (60 * 1000000) of
                       Inl e \<Rightarrow> Inl e
                     | Inr hi \<Rightarrow>
                         scan_rows start_utc organizer_email exclude_id
                           (select_window db subject src (isoformat lo) (isoformat hi)
                              exclude_id)))))"

definition find_duplicate :: "appointment list \<Rightarrow> string option \<Rightarrow> string option
    \<Rightarrow> string option \<Rightarrow> string option \<Rightarrow> string option \<Rightarrow> string option" where
  \<comment> \<open>\<open>CalendarDatabase.find_duplicate\<close>: \<open>except Exception\<close> turns every raise into
      \<open>None\<close>\<close>
  "find_duplicate db subject start_time organizer_email src exclude_id =
     (case find_duplicate_body db subject start_time organizer_email src exclude_id of
        Inl e \<Rightarrow> None
      | Inr r \<Rightarrow> r)"

section \<open>The Merge-Write Engine\<close>

record dedup_rules =
  skip_same_source :: bool
  precedence :: "(string \<times> int) list"
  rule_source :: string

definition no_rules :: dedup_rules where
  \<comment> \<open>the defaults read from an absent or empty rules dictionary\<close>
  "no_rules = \<lparr>skip_same_source = False, precedence = [], rule_source = []\<rparr>"

definition precedence_get :: "dedup_rules \<Rightarrow> string \<Rightarrow> int" where
  \<comment> \<open>\<open>precedence.get(name, 0)\<close>\<close>
  "precedence_get rules name = (case map_of (precedence rules) name of None \<Rightarrow> 0 | Some p \<Rightarrow> p)"

definition select_by_id :: "appointment list \<Rightarrow> string \<Rightarrow> appointment option" where
  \<comment> \<open>\<open>SELECT ... WHERE id = ?\<close> followed by \<open>fetchone()\<close>\<close>
  "select_by_id db i = find (\<lambda>row. r_id row = i) db"

definition write_fields :: "event_data \<Rightarrow> string option \<Rightarrow> string \<Rightarrow> appointment
    \<Rightarrow> appointment" where
  \<comment> \<open>the columns both the UPDATE and the INSERT set from the candidate\<close>
  "write_fields ev att now row =
     row\<lparr>r_subject := get (e_subject ev) [], r_start_time := get (e_start_time ev) [],
         r_end_time := get (e_end_time ev) [], r_location := get (e_location ev) [],
         r_organizer_email := get (e_organizer_email ev) [],
         r_organizer_name := get (e_organizer_name ev) [], r_attendees := att,
         r_body_preview := get (e_body_preview ev) [], r_is_all_day := get (e_is_all_day ev) 0,
         r_source := get (e_source ev) [], r_updated_at := Some now\<rparr>"

definition sql_update :: "appointment list \<Rightarrow> string \<Rightarrow> event_data \<Rightarrow> string
    \<Rightarrow> error + appointment list" where
  \<comment> \<open>\<open>UPDATE appointments SET ... WHERE id = ?\<close>: neither \<open>id\<close> nor \<open>created_at\<close> is set\<close>
  "sql_update db target ev now =
     (case bind_values ev of
        Inl e \<Rightarrow> Inl e
      | Inr att \<Rightarrow>
          Inr (map (\<lambda>row. if r_id row = target then write_fields ev att now row else row) db))"

definition sql_insert :: "appointment list \<Rightarrow> string \<Rightarrow> event_data \<Rightarrow> string
    \<Rightarrow> error + appointment list" where
  \<comment> \<open>\<open>INSERT INTO appointments ...\<close> with \<open>created_at\<close> and \<open>updated_at\<close> both \<open>now\<close>\<close>
  "sql_insert db event_id ev now =
     (case bind_values ev of
        Inl e \<Rightarrow> Inl e
      | Inr att \<Rightarrow>
          Inr (db @ [write_fields ev att now
                 \<lparr>r_id = event_id, r_subject = None, r_start_time = None, r_end_time = None,
                  r_location = None, r_organizer_email = None, r_organizer_name = None,
                  r_attendees = None, r_body_preview = None, r_is_all_day = None,
                  r_source = None, r_created_at = Some now, r_updated_at = Some now\<rparr>]))"

type_synonym progress = "appointment list \<times> nat \<times> nat"

definition counted_update :: "progress \<Rightarrow> string \<Rightarrow> event_data \<Rightarrow> string \<Rightarrow> error + progress" where
  \<comment> \<open>an UPDATE followed by \<open>updated_count += 1\<close>\<close>
  "counted_update st target ev now =
     (case st of (db, saved_count, updated_count) \<Rightarrow>
        (case sql_update db target ev now of
           Inl e \<Rightarrow> Inl e
         | Inr db' \<Rightarrow> Inr (db', saved_count, updated_count + 1)))"

definition counted_insert :: "progress \<Rightarrow> string \<Rightarrow> event_data \<Rightarrow> string \<Rightarrow> error + progress" where
  \<comment> \<open>an INSERT followed by \<open>saved_count += 1\<close>\<close>
  "counted_insert st event_id ev now =
     (case st of (db, saved_count, updated_count) \<Rightarrow>
        (case sql_insert db event_id ev now of
           Inl e \<Rightarrow> Inl e
         | Inr db' \<Rightarrow> Inr (db', saved_count + 1, updated_count)))"

definition save_one :: "appointment list \<Rightarrow> dedup_rules \<Rightarrow> string \<Rightarrow> event_data \<Rightarrow> progress
    \<Rightarrow> error + progress" where
  \<comment> \<open>one pass of the loop of \<open>save_appointments\<close>. \<open>committed\<close> is the table as last
      committed: \<open>find_duplicate\<close> opens a connection of its own, which does not see the
      writes the batch has not committed yet; the lookups by id run on the batch's own
      connection and see them.\<close>
  "save_one committed rules now ev st =
     (case st of (db, saved_count, updated_count) \<Rightarrow>
      if ev = empty_event then Inr st
      else
        (case get_none (e_id ev) of
           None \<Rightarrow> Inr st
         | Some event_id \<Rightarrow>
             if event_id = [] then Inr st
             else
               (let current_source = rule_source rules in
                case select_by_id db event_id of
                  Some existing \<Rightarrow>
                    (let existing_source = r_source existing in
                     if truthy (Some current_source) \<and> truthy existing_source then
                       (let current_precedence = precedence_get rules current_source;
                            existing_precedence =
                              precedence_get rules (case existing_source of Some s \<Rightarrow> s | None \<Rightarrow> [])
                        in if current_precedence < existing_precedence then Inr st
                           else if current_precedence > existing_precedence
                           then counted_update st event_id ev now
                           else if skip_same_source rules \<and> Some current_source = existing_source
                           then Inr st
                           else counted_update st event_id ev now)
                     else counted_update st event_id ev now)
                | None \<Rightarrow>
                    (case find_duplicate committed (get (e_subject ev) []) (get (e_start_time ev) [])
                            (get (e_organizer_email ev) []) (get (e_source ev) []) (Some event_id) of
                       None \<Rightarrow> counted_insert st event_id ev now
                     | Some duplicate_id \<Rightarrow>
                         if duplicate_id = [] then counted_insert st event_id ev now
                         else
                           (let dup_source = (case select_by_id db duplicate_id of
                                                Some row \<Rightarrow> r_source row
                                              | None \<Rightarrow> Some [])
                            in if truthy (Some current_source) \<and> truthy dup_source then
                                 (let current_precedence = precedence_get rules current_source;
                                      dup_precedence =
                                        precedence_get rules (case dup_source of Some s \<Rightarrow> s | None \<Rightarrow> [])
                                  in if current_precedence < dup_precedence then Inr st
                                     else if current_precedence > dup_precedence
                                     then counted_update st duplicate_id ev now
                                     else if skip_same_source rules \<and> Some current_source = dup_source
                                     then Inr st
                                     else counted_insert st event_id ev now)
                               else Inr st)))))"

fun save_loop :: "appointment list \<Rightarrow> dedup_rules \<Rightarrow> string \<Rightarrow> event_data list \<Rightarrow> progress
    \<Rightarrow> error + progress" where
  \<comment> \<open>\<open>for event_data in appointments\<close>: nothing in the loop catches an exception\<close>
  "save_loop committed rules now [] st = Inr st"
| "save_loop committed rules now (ev # evs) st =
     (case save_one committed rules now ev st of
        Inl e \<Rightarrow> Inl e
      | Inr st' \<Rightarrow> save_loop committed rules now evs st')"

definition save_appointments :: "appointment list \<Rightarrow> event_data list \<Rightarrow> dedup_rules option
    \<Rightarrow> string \<Rightarrow> (error + nat \<times> nat) \<times> appointment list" where
  \<comment> \<open>\<open>CalendarDatabase.save_appointments\<close>, with the clock reading \<open>now\<close> as an argument.
      The result is what the call returns or raises, and the table afterwards: the
      connection's \<open>with\<close> block commits when the loop ends and rolls back when it raises.\<close>
  "save_appointments db appts deduplication_rules now =
     (if appts = [] then (Inr (0, 0), db)
      else
        (let rules = (case deduplication_rules of None \<Rightarrow> no_rules | Some r \<Rightarrow> r)
         in case save_loop db rules now appts (db, 0, 0) of
              Inl e \<Rightarrow> (Inl e, db)
            | Inr (db', saved_count, updated_count) \<Rightarrow> (Inr (saved_count, updated_count), db')))"

section \<open>Suppression and queries\<close>

definition get_ignored_base_ids :: "database \<Rightarrow> string set" where
  "get_ignored_base_ids db = set (map b_base_id (ignored_base_ids db))"

definition get_ignored_event_ids :: "database \<Rightarrow> string set" where
  "get_ignored_event_ids db = set (map i_event_id (ignored_event_ids db))"

definition add_ignored_base_id :: "database \<Rightarrow> string \<Rightarrow> string option \<Rightarrow> string option
    \<Rightarrow> string \<Rightarrow> database" where
  \<comment> \<open>\<open>INSERT OR REPLACE\<close>: a row with the same key is replaced; \<open>now\<close> is the clock reading\<close>
  "add_ignored_base_id db base_id subject reason now =
     db\<lparr>ignored_base_ids :=
          filter (\<lambda>row. b_base_id row \<noteq> base_id) (ignored_base_ids db)
          @ [\<lparr>b_base_id = base_id, b_subject = subject, b_ignored_at = now, b_reason = reason\<rparr>]\<rparr>"

definition remove_ignored_base_id :: "database \<Rightarrow> string \<Rightarrow> database" where
  "remove_ignored_base_id db base_id =
     db\<lparr>ignored_base_ids := filter (\<lambda>row. b_base_id row \<noteq> base_id) (ignored_base_ids db)\<rparr>"

definition add_ignored_event_id :: "database \<Rightarrow> string \<Rightarrow> string option \<Rightarrow> string option
    \<Rightarrow> string option \<Rightarrow> string \<Rightarrow> database" where
  \<comment> \<open>\<open>INSERT OR REPLACE\<close> into \<open>ignored_event_ids\<close>\<close>
  "add_ignored_event_id db event_id subject start_time reason now =
     db\<lparr>ignored_event_ids :=
          filter (\<lambda>row. i_event_id row \<noteq> event_id) (ignored_event_ids db)
          @ [\<lparr>i_event_id = event_id, i_subject = subject, i_start_time = start_time,
              i_ignored_at = now, i_reason = reason\<rparr>]\<rparr>"

definition remove_ignored_event_id :: "database \<Rightarrow> string \<Rightarrow> database" where
  "remove_ignored_event_id db event_id =
     db\<lparr>ignored_event_ids := filter (\<lambda>row. i_event_id row \<noteq> event_id) (ignored_event_ids db)\<rparr>"

record event_out =
  o_id :: string
  o_subject :: "string option"
  o_start_time :: "string option"
  o_end_time :: "string option"
  o_location :: "string option"
  o_organizer_email :: "string option"
  o_organizer_name :: "string option"
  o_attendees :: "string option"
  o_body_preview :: "string option"
  o_is_all_day :: "int option"
  o_source :: "string option"

definition to_event :: "appointment \<Rightarrow> event_out" where
  \<comment> \<open>the dictionary \<open>query_events\<close> builds from a row\<close>
  "to_event row =
     \<lparr>o_id = r_id row, o_subject = r_subject row, o_start_time = r_start_time row,
      o_end_time = r_end_time row, o_location = or_text (r_location row) [],
      o_organizer_email = or_text (r_organizer_email row) [],
      o_organizer_name = or_text (r_organizer_name row) [],
      o_attendees = or_text (r_attendees row) ''[]'',
      o_body_preview = or_text (r_body_preview row) [],
      o_is_all_day = r_is_all_day row, o_source = or_text (r_source row) []\<rparr>"

definition date_plus :: "int \<Rightarrow> int \<Rightarrow> error + int" where
  \<comment> \<open>a date, as its ordinal, plus \<open>timedelta(days=k)\<close>: OverflowError outside years 1 to 9999\<close>
  "date_plus ordinal k =
     (let n = ordinal + k in if 1 \<le> n \<and> n \<le> 3652059 then Inr n else Inl OverflowError)"

definition date_isoformat :: "int \<Rightarrow> string" where
  \<comment> \<open>\<open>date.isoformat()\<close>\<close>
  "date_isoformat ordinal =
     (case ord2ymd ordinal of (y, m, d) \<Rightarrow> pad4 y @ ''-'' @ pad2 m @ ''-'' @ pad2 d)"

definition in_range :: "string \<Rightarrow> string \<Rightarrow> string option \<Rightarrow> appointment \<Rightarrow> bool" where
  \<comment> \<open>the WHERE clause of \<open>query_events\<close>: the first ten characters of \<open>start_time\<close> from
      \<open>start_date_str\<close> up to, not including, \<open>end_date_str\<close>; \<open>source = ?\<close> when a source is
      given\<close>
  "in_range start_date_str end_date_str src row =
     ((case r_start_time row of
         None \<Rightarrow> False
       | Some st \<Rightarrow> str_le start_date_str (take 10 st) \<and> str_lt (take 10 st) end_date_str)
      \<and> (truthy src \<longrightarrow> sql_eq (r_source row) src))"

definition select_range :: "appointment list \<Rightarrow> string \<Rightarrow> string \<Rightarrow> string option
    \<Rightarrow> appointment list" where
  \<comment> \<open>the SELECT of \<open>query_events\<close>, with its \<open>ORDER BY start_time ASC\<close>\<close>
  "select_range rows start_date_str end_date_str src =
     order_by_start_time (filter (in_range start_date_str end_date_str src) rows)"

definition date_window :: "int \<Rightarrow> int \<Rightarrow> int \<Rightarrow> error + string \<times> string" where
  \<comment> \<open>\<open>start_date_str\<close> and \<open>end_date_str\<close>: the dates \<open>today - days_back\<close> and
      \<open>today + days_ahead + 1\<close>; \<open>today\<close> is the ordinal of the clock's UTC date\<close>
  "date_window today days_back days_ahead =
     (case date_plus today (- days_back) of
        Inl e \<Rightarrow> Inl e
      | Inr start_date \<Rightarrow>
          (case date_plus today days_ahead of
             Inl e \<Rightarrow> Inl e
           | Inr end_date \<Rightarrow>
               (case date_plus end_date 1 of
                  Inl e \<Rightarrow> Inl e
                | Inr end_next \<Rightarrow> Inr (date_isoformat start_date, date_isoformat end_next))))"

definition visible :: "database \<Rightarrow> appointment \<Rightarrow> bool" where
  \<comment> \<open>the two \<open>continue\<close> tests of the loop over the fetched rows\<close>
  "visible db row =
     (r_id row \<notin> get_ignored_event_ids db
      \<and> get_base_id_from_event_id (r_id row) \<notin> get_ignored_base_ids db)"

definition query_events :: "database \<Rightarrow> int \<Rightarrow> int \<Rightarrow> int \<Rightarrow> string option
    \<Rightarrow> error + event_out list" where
  \<comment> \<open>\<open>CalendarDatabase.query_events\<close>; \<open>today\<close> is the ordinal of the clock's UTC date\<close>
  "query_events db today days_back days_ahead src =
     (case date_window today days_back days_ahead of
        Inl e \<Rightarrow> Inl e
      | Inr (start_date_str, end_date_str) \<Rightarrow>
          Inr (map to_event
                 (filter (visible db)
                    (select_range (appointments db) start_date_str end_date_str src))))"

section \<open>Rows and candidates of the concrete cases\<close>

definition stored :: "string \<Rightarrow> string \<Rightarrow> string \<Rightarrow> string \<Rightarrow> string \<Rightarrow> appointment" where
  \<comment> \<open>the row an INSERT writes at time \<open>t\<close> for a candidate that has these four keys only\<close>
  "stored i subj start src t =
     \<lparr>r_id = i, r_subject = Some subj, r_start_time = Some start, r_end_time = Some [],
      r_location = Some [], r_organizer_email = Some [], r_organizer_name = Some [],
      r_attendees = Some ''[]'', r_body_preview = Some [], r_is_all_day = Some 0,
      r_source = Some src, r_created_at = Some t, r_updated_at = Some t\<rparr>"

definition candidate :: "string \<Rightarrow> string \<Rightarrow> string \<Rightarrow> string \<Rightarrow> event_data" where
  \<comment> \<open>the dictionary with the keys \<open>id\<close>, \<open>subject\<close>, \<open>start_time\<close> and \<open>source\<close>\<close>
  "candidate i subj start src =
     empty_event\<lparr>e_id := Given (Some i), e_subject := Given (Some subj),
       e_start_time := Given (Some start), e_source := Given (Some src)\<rparr>"

section \<open>The occurrence suffix as the specification words it\<close>

text \<open>
  The specification's account of the base id, to compare with the code's
  \<open>get_base_id_from_event_id\<close>: a trailing \<open>_YYYYMMDDTHHMMSS\<close>, that is an underscore and
  exactly 15 characters, 8 decimal digits, the letter \<open>T\<close> and 6 decimal digits, is stripped;
  an id without it is the base id.
\<close>

definition decimal_digit :: "char \<Rightarrow> bool" where
  "decimal_digit c = (c \<in> set ''0123456789'')"

definition occurrence_suffix :: "string \<Rightarrow> bool" where
  "occurrence_suffix s =
     (length s = 15 \<and> list_all decimal_digit (take 8 s) \<and> s ! 8 = CHR ''T''
      \<and> list_all decimal_digit (drop 9 s))"

definition strip_occurrence_suffix :: "string \<Rightarrow> string" where
  "strip_occurrence_suffix event_id =
     (let n = length event_id
      in if 16 \<le> n \<and> event_id ! (n - 16) = CHR ''_''
            \<and> occurrence_suffix (drop (n - 15) event_id)
         then take (n - 16) event_id
         else event_id)"

section \<open>Facts about splitting and joining\<close>

lemma split_on_not_Nil: "split_on sep s \<noteq> []"
  by (induction s) (auto split: list.splits)

lemma split_on_no_sep: "sep \<notin> set s \<Longrightarrow> split_on sep s = [s]"
  by (induction s) auto

lemma split_on_append_sep:
  "sep \<notin> set b \<Longrightarrow> split_on sep (a @ sep # b) = split_on sep a @ [b]"
proof (induction a)
  case Nil
  then show ?case by (simp add: split_on_no_sep)
next
  case (Cons x a)
  then show ?case
    using split_on_not_Nil [of sep a] by (cases "split_on sep a") auto
qed

lemma join_split_on: "join [sep] (split_on sep s) = s"
proof (induction s)
  case Nil
  show ?case by simp
next
  case (Cons c s)
  show ?case
  proof (cases "split_on sep s")
    case Nil
    then show ?thesis using split_on_not_Nil [of sep s] by simp
  next
    case (Cons p ps)
    with Cons.IH show ?thesis by (cases ps) auto
  qed
qed

lemma join_snoc: "ps \<noteq> [] \<Longrightarrow> join sep (ps @ [q]) = join sep ps @ sep @ q"
  by (induction sep ps rule: join.induct) auto

lemma digit_char_not_sep: "digit_char c \<Longrightarrow> c \<noteq> CHR ''_''"
  by (auto simp: digit_char_def)

lemma stamp_shape:
  assumes "length s = 15" "s ! 8 = CHR ''T''"
  shows "s = take 8 s @ ''T'' @ drop 9 s"
proof -
  have "s = take 8 s @ drop 8 s" by simp
  moreover have "drop 8 s = s ! 8 # drop 9 s"
    using assms(1) Cons_nth_drop_Suc [of 8 s] by simp
  ultimately show ?thesis using assms(2) by simp
qed

lemma get_base_id_strips:
  assumes "length d = 8" "length t = 6" "list_all digit_char d" "list_all digit_char t"
  shows "get_base_id_from_event_id (b @ ''_'' @ d @ ''T'' @ t) = b"
proof -
  let ?suf = "d @ ''T'' @ t"
  have nosep: "CHR ''_'' \<notin> set ?suf"
    using assms(3,4) by (auto simp: list_all_iff dest: digit_char_not_sep)
  have parts: "split_on (CHR ''_'') (b @ CHR ''_'' # ?suf) = split_on (CHR ''_'') b @ [?suf]"
    using nosep by (rule split_on_append_sep)
  have ne: "split_on (CHR ''_'') b \<noteq> []" by (rule split_on_not_Nil)
  have len: "length (split_on (CHR ''_'') b @ [?suf]) \<ge> 2"
    using ne by (cases "split_on (CHR ''_'') b") auto
  have d8: "take 8 ?suf = d" and t6: "drop 9 ?suf = t" and at8: "?suf ! 8 = CHR ''T''"
    using assms(1) by (simp_all add: nth_append)
  have dig: "isdigit d" "isdigit t"
    using assms by (auto simp: isdigit_def)
  have "get_base_id_from_event_id (b @ CHR ''_'' # ?suf) = join ''_'' (split_on (CHR ''_'') b)"
    unfolding get_base_id_from_event_id_def parts Let_def
    using len d8 t6 at8 dig assms(1,2) by simp
  then show ?thesis by (simp add: join_split_on)
qed

lemma get_base_id_changed:
  assumes "get_base_id_from_event_id s \<noteq> s"
  shows "\<exists>b d t. s = b @ ''_'' @ d @ ''T'' @ t \<and> length d = 8 \<and> length t = 6
           \<and> list_all digit_char d \<and> list_all digit_char t"
proof -
  let ?parts = "split_on (CHR ''_'') s"
  let ?l = "last ?parts"
  from assms have c: "length ?parts \<ge> 2" "length ?l = 15" "?l ! 8 = CHR ''T''"
      "isdigit (take 8 ?l)" "isdigit (drop 9 ?l)"
    by (auto simp: get_base_id_from_event_id_def Let_def split: if_splits)
  have ne: "butlast ?parts \<noteq> []"
    using c(1) by (cases ?parts rule: rev_cases) auto
  have "?parts = butlast ?parts @ [?l]"
    using split_on_not_Nil [of "CHR ''_''" s] by simp
  then have "join ''_'' ?parts = join ''_'' (butlast ?parts) @ ''_'' @ ?l"
    using join_snoc [OF ne, of "''_''" ?l] by simp
  then have s: "s = join ''_'' (butlast ?parts) @ ''_'' @ ?l"
    by (simp add: join_split_on)
  have shape: "?l = take 8 ?l @ ''T'' @ drop 9 ?l"
    using c(2,3) by (rule stamp_shape)
  have "s = join ''_'' (butlast ?parts) @ ''_'' @ take 8 ?l @ ''T'' @ drop 9 ?l"
    using s shape by simp
  moreover have "length (take 8 ?l) = 8" "length (drop 9 ?l) = 6"
    using c(2) by simp_all
  moreover have "list_all digit_char (take 8 ?l)" "list_all digit_char (drop 9 ?l)"
    using c(4,5) by (simp_all add: isdigit_def)
  ultimately show ?thesis by blast
qed


lemma decimal_digit_digit_char: "decimal_digit c \<Longrightarrow> digit_char c"
  by (simp add: decimal_digit_def digit_char_def)

lemma strip_occurrence_suffix_strips:
  assumes "length d = 8" "length t = 6" "list_all decimal_digit d" "list_all decimal_digit t"
  shows "strip_occurrence_suffix (b @ ''_'' @ d @ ''T'' @ t) = b"
proof -
  let ?s = "b @ ''_'' @ d @ ''T'' @ t"
  have n: "length ?s = length b + 16" using assms(1,2) by simp
  have a: "?s ! (length b + 16 - 16) = CHR ''_''" by (simp add: nth_append)
  have b: "drop (length b + 16 - 15) ?s = d @ ''T'' @ t" by simp
  have c: "occurrence_suffix (d @ ''T'' @ t)"
    using assms by (simp add: occurrence_suffix_def nth_append)
  have d: "take (length b + 16 - 16) ?s = b" by simp
  show ?thesis
    unfolding strip_occurrence_suffix_def Let_def n using a b c d by simp
qed

lemma strip_occurrence_suffix_changed:
  assumes "strip_occurrence_suffix s \<noteq> s"
  shows "\<exists>b d t. s = b @ ''_'' @ d @ ''T'' @ t \<and> length d = 8 \<and> length t = 6
           \<and> list_all decimal_digit d \<and> list_all decimal_digit t"
proof -
  let ?n = "length s"
  let ?l = "drop (?n - 15) s"
  from assms have c: "16 \<le> ?n" "s ! (?n - 16) = CHR ''_''" "occurrence_suffix ?l"
    by (auto simp: strip_occurrence_suffix_def Let_def split: if_splits)
  have "s = take (?n - 16) s @ drop (?n - 16) s" by simp
  moreover have "drop (?n - 16) s = s ! (?n - 16) # drop (Suc (?n - 16)) s"
    using c(1) Cons_nth_drop_Suc [of "?n - 16" s] by simp
  moreover have "Suc (?n - 16) = ?n - 15" using c(1) by simp
  ultimately have s: "s = take (?n - 16) s @ ''_'' @ ?l" using c(2) by simp
  have l15: "length ?l = 15" "?l ! 8 = CHR ''T''"
    using c(3) by (simp_all add: occurrence_suffix_def)
  have shape: "?l = take 8 ?l @ ''T'' @ drop 9 ?l"
    using l15 by (rule stamp_shape)
  have "s = take (?n - 16) s @ ''_'' @ take 8 ?l @ ''T'' @ drop 9 ?l"
    using s shape by simp
  moreover have "length (take 8 ?l) = 8" "length (drop 9 ?l) = 6"
    using l15(1) by simp_all
  moreover have "list_all decimal_digit (take 8 ?l)" "list_all decimal_digit (drop 9 ?l)"
    using c(3) by (simp_all add: occurrence_suffix_def)
  ultimately show ?thesis by blast
qed

lemma base_id_agrees_on_decimal_digits:
  assumes "\<forall>c\<in>set s. digit_char c \<longrightarrow> decimal_digit c"
  shows "get_base_id_from_event_id s = strip_occurrence_suffix s"
proof (cases "get_base_id_from_event_id s = s")
  case True
  have "strip_occurrence_suffix s = s"
  proof (rule ccontr)
    assume "strip_occurrence_suffix s \<noteq> s"
    from strip_occurrence_suffix_changed [OF this] obtain b d t where
      s: "s = b @ ''_'' @ d @ ''T'' @ t" and l: "length d = 8" "length t = 6"
      and dec: "list_all decimal_digit d" "list_all decimal_digit t"
      by blast
    from dec have "list_all digit_char d" "list_all digit_char t"
      by (auto simp: list_all_iff dest: decimal_digit_digit_char)
    from get_base_id_strips [OF l this, of b] s have "get_base_id_from_event_id s = b" by simp
    with True have "s = b" by simp
    with s show False by simp
  qed
  with True show ?thesis by simp
next
  case False
  from get_base_id_changed [OF this] obtain b d t where
    s: "s = b @ ''_'' @ d @ ''T'' @ t" and l: "length d = 8" "length t = 6"
    and dig: "list_all digit_char d" "list_all digit_char t"
    by blast
  have "set d \<subseteq> set s" "set t \<subseteq> set s" using s by auto
  with assms dig have dec: "list_all decimal_digit d" "list_all decimal_digit t"
    by (auto simp: list_all_iff)
  from get_base_id_strips [OF l dig, of b] strip_occurrence_suffix_strips [OF l dec, of b] s
  show ?thesis by simp
qed
section \<open>Facts about the order of rows\<close>

lemma set_insert_by_start: "set (insert_by_start row rows) = insert row (set rows)"
  by (induction rows) auto

lemma set_foldl_insert_by_start:
  "set (foldl (\<lambda>acc row. insert_by_start row acc) acc rows) = set acc \<union> set rows"
  by (induction rows arbitrary: acc) (auto simp: set_insert_by_start)

lemma set_order_by_start_time: "set (order_by_start_time rows) = set rows"
  by (simp add: order_by_start_time_def set_foldl_insert_by_start)

section \<open>Facts about the Duplicate Finder\<close>

lemma scan_rows_found:
  "scan_rows start_utc organizer_email exclude_id rows = Inr (Some i)
   \<Longrightarrow> (\<exists>row\<in>set rows. r_id row = i) \<and> Some i \<noteq> exclude_id"
proof (induction rows)
  case Nil
  then show ?case by simp
next
  case (Cons row rows)
  then show ?case
    by (auto split: if_splits option.splits sum.splits)
qed

lemma select_window_subset: "set (select_window db subject src lo hi exclude_id) \<subseteq> set db"
  by (auto simp: select_window_def set_order_by_start_time)

lemma find_duplicate_found:
  assumes "find_duplicate db subject start_time organizer_email src exclude_id = Some i"
  shows "(\<exists>row\<in>set db. r_id row = i) \<and> Some i \<noteq> exclude_id"
proof -
  from assms obtain start_utc lo hi where
    "scan_rows start_utc organizer_email exclude_id
       (select_window db subject src lo hi exclude_id) = Inr (Some i)"
    by (auto simp: find_duplicate_def find_duplicate_body_def
             split: option.splits sum.splits)
  from scan_rows_found [OF this] select_window_subset [of db subject src lo hi exclude_id]
  show ?thesis by blast
qed

section \<open>Facts about queries and suppression\<close>

lemma select_range_sound:
  assumes "row \<in> set (select_range rows lo hi src)"
  shows "row \<in> set rows \<and> r_start_time row \<noteq> None"
  using assms
  by (auto simp: select_range_def in_range_def set_order_by_start_time split: option.splits)

lemma query_events_rows:
  assumes "query_events db today days_back days_ahead src = Inr events" "e \<in> set events"
  shows "\<exists>row\<in>set (appointments db). e = to_event row \<and> visible db row
           \<and> r_start_time row \<noteq> None"
proof -
  from assms obtain lo hi where
    "e \<in> to_event ` set (filter (visible db) (select_range (appointments db) lo hi src))"
    by (auto simp: query_events_def split: sum.splits)
  then obtain row where "row \<in> set (select_range (appointments db) lo hi src)"
      "visible db row" "e = to_event row"
    by auto
  with select_range_sound [of row "appointments db" lo hi src] show ?thesis by blast
qed

lemma or_text_Some: "or_text v d = Some (case v of None \<Rightarrow> d | Some s \<Rightarrow> if s = [] then d else s)"
  by (simp add: or_text_def truthy_def split: option.splits)

lemma filter_filter_snoc_base:
  "filter (\<lambda>row. b_base_id row \<noteq> b)
     (filter (\<lambda>row. b_base_id row \<noteq> b) xs @ [\<lparr>b_base_id = b, b_subject = s, b_ignored_at = t, b_reason = r\<rparr>])
   = filter (\<lambda>row. b_base_id row \<noteq> b) xs"
  by simp

lemma filter_absent_base:
  "b \<notin> set (map b_base_id xs) \<Longrightarrow> filter (\<lambda>row. b_base_id row \<noteq> b) xs = xs"
  by (induction xs) auto

lemma remove_add_ignored_base_id:
  assumes "b \<notin> get_ignored_base_ids db"
  shows "remove_ignored_base_id (add_ignored_base_id db b subj reason now) b = db"
  using assms filter_absent_base [of b "ignored_base_ids db"]
  by (simp add: remove_ignored_base_id_def add_ignored_base_id_def get_ignored_base_ids_def)

lemma add_ignored_base_id_member:
  "b \<in> get_ignored_base_ids (add_ignored_base_id db b subj reason now)"
  by (simp add: add_ignored_base_id_def get_ignored_base_ids_def)


lemma query_events_window:
  assumes "date_window today days_back days_ahead = Inr (lo, hi)"
  shows "query_events db today days_back days_ahead src
      = Inr (map to_event (filter (visible db) (select_range (appointments db) lo hi src)))"
  using assms by (simp add: query_events_def)

lemma select_range_member:
  "row \<in> set (select_range rows lo hi src) \<longleftrightarrow> row \<in> set rows \<and> in_range lo hi src row"
  by (simp add: select_range_def set_order_by_start_time)

lemma filter_map_to_event:
  "filter (\<lambda>e. P (o_id e)) (map to_event rows) = map to_event (filter (\<lambda>row. P (r_id row)) rows)"
  by (induction rows) (simp_all add: to_event_def)

lemma visible_iff:
  "visible db row \<longleftrightarrow>
     (\<forall>x\<in>set (ignored_event_ids db). i_event_id x \<noteq> r_id row)
     \<and> (\<forall>x\<in>set (ignored_base_ids db). b_base_id x \<noteq> get_base_id_from_event_id (r_id row))"
  by (auto simp: visible_def get_ignored_event_ids_def get_ignored_base_ids_def image_iff)

lemma visible_add_ignored_base_id:
  "visible (add_ignored_base_id db b subject reason now)
   = (\<lambda>row. visible db row \<and> get_base_id_from_event_id (r_id row) \<noteq> b)"
  by (auto simp: visible_iff add_ignored_base_id_def fun_eq_iff)

lemma visible_remove_add_ignored_base_id:
  "visible (remove_ignored_base_id (add_ignored_base_id db b subject reason now) b) row
   \<longleftrightarrow> (\<forall>x\<in>set (ignored_event_ids db). i_event_id x \<noteq> r_id row)
     \<and> (\<forall>x\<in>set (ignored_base_ids db).
            b_base_id x \<noteq> b \<longrightarrow> b_base_id x \<noteq> get_base_id_from_event_id (r_id row))"
  by (auto simp: visible_iff add_ignored_base_id_def remove_ignored_base_id_def)

lemma visible_add_ignored_event_id:
  "visible (add_ignored_event_id db i subject start_time reason now)
   = (\<lambda>row. visible db row \<and> r_id row \<noteq> i)"
  by (auto simp: visible_iff add_ignored_event_id_def fun_eq_iff)

lemma appointments_unchanged:
  "appointments (add_ignored_base_id db b subject reason now) = appointments db"
  "appointments (remove_ignored_base_id db b) = appointments db"
  "appointments (add_ignored_event_id db i subject start_time reason now) = appointments db"
  "appointments (remove_ignored_event_id db i) = appointments db"
  by (simp_all add: add_ignored_base_id_def remove_ignored_base_id_def
        add_ignored_event_id_def remove_ignored_event_id_def)
section \<open>Facts about the Merge-Write Engine\<close>

lemma select_by_id_None: "select_by_id db i = None \<longleftrightarrow> (\<forall>row\<in>set db. r_id row \<noteq> i)"
  by (auto simp: select_by_id_def find_None_iff)


lemma write_fields_frame:
  "r_id (write_fields ev att now row) = r_id row"
  "r_created_at (write_fields ev att now row) = r_created_at row"
  "r_updated_at (write_fields ev att now row) = Some now"
  by (simp_all add: write_fields_def)


lemma counted_update_Inr:
  assumes "counted_update (db, s, u) target ev now = Inr st'"
  shows "\<exists>att. bind_values ev = Inr att
           \<and> st' = (map (\<lambda>row. if r_id row = target then write_fields ev att now row else row) db,
                    s, u + 1)"
  using assms by (auto simp: counted_update_def sql_update_def split: sum.splits)

lemma counted_insert_Inr:
  assumes "counted_insert (db, s, u) event_id ev now = Inr st'"
  shows "\<exists>row. st' = (db @ [row], s + 1, u) \<and> r_id row = event_id
           \<and> r_created_at row = Some now \<and> r_updated_at row = Some now"
  using assms
  by (auto simp: counted_insert_def sql_insert_def write_fields_def split: sum.splits)

lemma save_one_outcome:
  assumes "save_one committed rules now ev (db, s, u) = Inr st'"
  shows "st' = (db, s, u)
    \<or> (\<exists>target. (get_none (e_id ev) = Some target
                   \<or> find_duplicate committed (get (e_subject ev) []) (get (e_start_time ev) [])
                        (get (e_organizer_email ev) []) (get (e_source ev) []) (get_none (e_id ev))
                      = Some target)
                \<and> counted_update (db, s, u) target ev now = Inr st')
    \<or> (\<exists>event_id. get_none (e_id ev) = Some event_id \<and> select_by_id db event_id = None
                \<and> counted_insert (db, s, u) event_id ev now = Inr st')"
  using assms
  by (simp add: save_one_def Let_def split: if_splits option.splits) blast+

lemma save_loop_append:
  "save_loop committed rules now (xs @ ys) st =
     (case save_loop committed rules now xs st of
        Inl e \<Rightarrow> Inl e
      | Inr st' \<Rightarrow> save_loop committed rules now ys st')"
  by (induction xs arbitrary: st) (auto split: sum.splits)

lemma save_one_frame_step:
  assumes "save_one committed rules now ev (db, s, u) = Inr (db', s', u')"
  shows "length db \<le> length db'
    \<and> (\<forall>i<length db. r_id (db' ! i) = r_id (db ! i)
          \<and> r_created_at (db' ! i) = r_created_at (db ! i)
          \<and> (r_updated_at (db' ! i) = r_updated_at (db ! i) \<or> r_updated_at (db' ! i) = Some now))
    \<and> (\<forall>i. length db \<le> i \<and> i < length db'
          \<longrightarrow> r_created_at (db' ! i) = Some now \<and> r_updated_at (db' ! i) = Some now)"
proof -
  from save_one_outcome [OF assms] consider
      (skip) "(db', s', u') = (db, s, u)"
    | (update) target where "counted_update (db, s, u) target ev now = Inr (db', s', u')"
    | (insert) event_id where "counted_insert (db, s, u) event_id ev now = Inr (db', s', u')"
    by blast
  then show ?thesis
  proof cases
    case skip
    then show ?thesis by auto
  next
    case update
    from counted_update_Inr [OF this] obtain att where
      "db' = map (\<lambda>row. if r_id row = target then write_fields ev att now row else row) db"
      by auto
    then show ?thesis by (auto simp: write_fields_frame)
  next
    case insert
    from counted_insert_Inr [OF this] obtain row where
      "db' = db @ [row]" "r_created_at row = Some now" "r_updated_at row = Some now"
      by auto
    then show ?thesis by (auto simp: nth_append)
  qed
qed

lemma save_loop_frame:
  assumes "save_loop committed rules now evs (db, s, u) = Inr (db', s', u')"
  shows "length db \<le> length db'
    \<and> (\<forall>i<length db. r_id (db' ! i) = r_id (db ! i)
          \<and> r_created_at (db' ! i) = r_created_at (db ! i)
          \<and> (r_updated_at (db' ! i) = r_updated_at (db ! i) \<or> r_updated_at (db' ! i) = Some now))
    \<and> (\<forall>i. length db \<le> i \<and> i < length db'
          \<longrightarrow> r_created_at (db' ! i) = Some now \<and> r_updated_at (db' ! i) = Some now)"
  using assms
proof (induction evs arbitrary: db s u)
  case Nil
  then show ?case by auto
next
  case (Cons ev evs)
  from Cons.prems obtain db1 s1 u1 where
    one: "save_one committed rules now ev (db, s, u) = Inr (db1, s1, u1)"
    and rest: "save_loop committed rules now evs (db1, s1, u1) = Inr (db', s', u')"
    by (auto split: sum.splits)
  note a = save_one_frame_step [OF one]
  note b = Cons.IH [OF rest]
  have len: "length db \<le> length db'" using a b by linarith
  have old: "r_id (db' ! i) = r_id (db ! i) \<and> r_created_at (db' ! i) = r_created_at (db ! i)
      \<and> (r_updated_at (db' ! i) = r_updated_at (db ! i) \<or> r_updated_at (db' ! i) = Some now)"
    if "i < length db" for i
  proof -
    from that a have "i < length db1" by linarith
    with a b that show ?thesis by metis
  qed
  have new: "r_created_at (db' ! i) = Some now \<and> r_updated_at (db' ! i) = Some now"
    if "length db \<le> i" "i < length db'" for i
  proof (cases "i < length db1")
    case True
    with a that have "r_created_at (db1 ! i) = Some now \<and> r_updated_at (db1 ! i) = Some now"
      by blast
    with b True show ?thesis by metis
  next
    case False
    with b that show ?thesis by simp
  qed
  from len old new show ?case by blast
qed


lemma candidate_with_id_not_empty: "get_none (e_id ev) = Some event_id \<Longrightarrow> ev \<noteq> empty_event"
  by (auto simp: empty_event_def get_none_def)


lemma save_one_duplicate_no_source:
  assumes "get_none (e_id ev) = Some event_id" "event_id \<noteq> []"
    and "select_by_id db event_id = None"
    and "find_duplicate committed (get (e_subject ev) []) (get (e_start_time ev) [])
           (get (e_organizer_email ev) []) (get (e_source ev) []) (Some event_id)
         = Some duplicate_id" "duplicate_id \<noteq> []"
    and "rule_source rules = []
         \<or> \<not> truthy (case select_by_id db duplicate_id of
                        Some row \<Rightarrow> r_source row
                      | None \<Rightarrow> Some [])"
  shows "save_one committed rules now ev (db, saved_count, updated_count)
      = Inr (db, saved_count, updated_count)"
  unfolding save_one_def
  using candidate_with_id_not_empty [OF assms(1)] assms by (auto simp: Let_def truthy_def)

lemma save_one_no_duplicate:
  assumes "get_none (e_id ev) = Some event_id" "event_id \<noteq> []"
    and "select_by_id db event_id = None"
    and "find_duplicate committed (get (e_subject ev) []) (get (e_start_time ev) [])
           (get (e_organizer_email ev) []) (get (e_source ev) []) (Some event_id) = None"
  shows "save_one committed rules now ev (db, saved_count, updated_count)
      = counted_insert (db, saved_count, updated_count) event_id ev now"
  unfolding save_one_def
  using candidate_with_id_not_empty [OF assms(1)] assms by (simp add: Let_def)

lemma find_duplicate_other_source:
  assumes "\<forall>row\<in>set db. \<not> sql_eq (r_source row) src"
  shows "find_duplicate db subject start_time organizer_email src exclude_id = None"
proof -
  have "select_window db subject src lo hi exclude_id = []" for lo hi
    using assms by (auto simp: select_window_def order_by_start_time_def filter_empty_conv)
  then show ?thesis
    by (simp add: find_duplicate_def find_duplicate_body_def split: option.splits sum.splits)
qed

lemma candidate_fields:
  "get_none (e_id (candidate i subj start src)) = Some i"
  "get (e_subject (candidate i subj start src)) [] = Some subj"
  "get (e_start_time (candidate i subj start src)) [] = Some start"
  "get (e_organizer_email (candidate i subj start src)) [] = Some []"
  "get (e_source (candidate i subj start src)) [] = Some src"
  by (simp_all add: candidate_def empty_event_def get_def get_none_def)

lemma counted_insert_candidate:
  "counted_insert (db, s, u) i (candidate i subj start src) now
   = Inr (db @ [stored i subj start src now], s + 1, u)"
  by (simp add: counted_insert_def sql_insert_def bind_values_def bind_attendees_def
        bind_integer_def write_fields_def candidate_def empty_event_def get_def stored_def)

lemma save_one_candidate_inserted:
  assumes "i \<noteq> []" "\<forall>row\<in>set db. r_id row \<noteq> i"
    and "\<forall>row\<in>set committed. r_source row \<noteq> Some src"
  shows "save_one committed rules now (candidate i subj start src) (db, s, u)
      = Inr (db @ [stored i subj start src now], s + 1, u)"
proof -
  have none: "select_by_id db i = None"
    using assms(2) by (simp add: select_by_id_None)
  have "\<forall>row\<in>set committed. \<not> sql_eq (r_source row) (Some src)"
    using assms(3) by (auto simp: sql_eq_def split: option.splits)
  then have nodup: "find_duplicate committed
      (get (e_subject (candidate i subj start src)) [])
      (get (e_start_time (candidate i subj start src)) [])
      (get (e_organizer_email (candidate i subj start src)) [])
      (get (e_source (candidate i subj start src)) []) (Some i) = None"
    by (simp only: candidate_fields find_duplicate_other_source)
  from save_one_no_duplicate [OF candidate_fields(1) assms(1) none nodup]
  show ?thesis by (simp add: counted_insert_candidate)
qed

section \<open>Claims\<close>

text \<open>
  C7. Base-id extraction. The claim asks that only a trailing underscore with 8 decimal
  digits, the letter T and 6 decimal digits is stripped, and that every other id is returned
  unchanged. The code tests the digits with \<open>str.isdigit\<close>, which also accepts the superscript
  digits: the id made of \<open>a_2025120\<close>, the superscript two (U+00B2) and \<open>T150000\<close>, whose last
  part is no timestamp, loses that part and gives \<open>a\<close>. On every id in
  which the characters \<open>str.isdigit\<close> accepts are decimal digits, the code returns what the
  specification says.
\<close>

theorem base_id_strips_superscript_digits:
  "get_base_id_from_event_id (''a_2025120'' @ [CHR 0xB2] @ ''T150000'') = ''a''
   \<and> strip_occurrence_suffix (''a_2025120'' @ [CHR 0xB2] @ ''T150000'')
       = ''a_2025120'' @ [CHR 0xB2] @ ''T150000''
   \<and> ((\<forall>c\<in>set event_id. digit_char c \<longrightarrow> decimal_digit c)
      \<longrightarrow> get_base_id_from_event_id event_id = strip_occurrence_suffix event_id)"
proof (intro conjI impI)
  show "get_base_id_from_event_id (''a_2025120'' @ [CHR 0xB2] @ ''T150000'') = ''a''"
    by code_simp
next
  show "strip_occurrence_suffix (''a_2025120'' @ [CHR 0xB2] @ ''T150000'')
       = ''a_2025120'' @ [CHR 0xB2] @ ''T150000''"
    by code_simp
next
  assume "\<forall>c\<in>set event_id. digit_char c \<longrightarrow> decimal_digit c"
  then show "get_base_id_from_event_id event_id = strip_occurrence_suffix event_id"
    by (rule base_id_agrees_on_decimal_digits)
qed

theorem base_id_strips_superscript_digits_witness:
  "get_base_id_from_event_id ''series1_20251201T150000'' = ''series1''
   \<and> get_base_id_from_event_id ''plainevent'' = ''plainevent''
   \<and> get_base_id_from_event_id ''abc_def'' = ''abc_def''"
proof -
  have h1: "\<forall>c\<in>set ''series1_20251201T150000''. digit_char c \<longrightarrow> decimal_digit c"
    by (simp add: digit_char_def decimal_digit_def)
  have h2: "\<forall>c\<in>set ''plainevent''. digit_char c \<longrightarrow> decimal_digit c"
    by (simp add: digit_char_def decimal_digit_def)
  have h3: "\<forall>c\<in>set ''abc_def''. digit_char c \<longrightarrow> decimal_digit c"
    by (simp add: digit_char_def decimal_digit_def)
  have s1: "strip_occurrence_suffix ''series1_20251201T150000'' = ''series1''"
    by code_simp
  have s2: "strip_occurrence_suffix ''plainevent'' = ''plainevent''"
    by code_simp
  have s3: "strip_occurrence_suffix ''abc_def'' = ''abc_def''"
    by code_simp
  from base_id_strips_superscript_digits [of "''series1_20251201T150000''"]
    base_id_strips_superscript_digits [of "''plainevent''"]
    base_id_strips_superscript_digits [of "''abc_def''"] h1 h2 h3 s1 s2 s3
  show ?thesis by simp
qed

text \<open>
  C10. The Duplicate Finder is total: for every table and all arguments it returns, and a
  raise inside its body (the OverflowError of the date arithmetic) becomes the result
  \<open>None\<close> instead of reaching the caller. The result is \<open>None\<close> or the id of a stored row,
  and that id is never \<open>exclude_id\<close>.
\<close>

theorem find_duplicate_total:
  "(find_duplicate_body db subject start_time organizer_email src exclude_id = Inl e
      \<longrightarrow> find_duplicate db subject start_time organizer_email src exclude_id = None)
   \<and> (find_duplicate db subject start_time organizer_email src exclude_id = None
      \<or> (\<exists>row\<in>set db.
            find_duplicate db subject start_time organizer_email src exclude_id
              = Some (r_id row)
            \<and> Some (r_id row) \<noteq> exclude_id))"
proof (intro conjI impI)
  assume "find_duplicate_body db subject start_time organizer_email src exclude_id = Inl e"
  then show "find_duplicate db subject start_time organizer_email src exclude_id = None"
    by (simp add: find_duplicate_def)
next
  show "find_duplicate db subject start_time organizer_email src exclude_id = None
      \<or> (\<exists>row\<in>set db.
            find_duplicate db subject start_time organizer_email src exclude_id
              = Some (r_id row)
            \<and> Some (r_id row) \<noteq> exclude_id)"
  proof (cases "find_duplicate db subject start_time organizer_email src exclude_id")
    case None
    then show ?thesis by simp
  next
    case (Some i)
    from find_duplicate_found [OF Some] Some show ?thesis by auto
  qed
qed

theorem find_duplicate_total_witness:
  "find_duplicate_body [stored ''a'' ''S'' ''2025-01-01T10:00:00Z'' ''x'' ''t'']
       (Some ''S'') (Some ''0001-01-01T00:00:30+05:00'') (Some []) (Some ''x'') (Some ''b'')
     = Inl OverflowError
   \<and> find_duplicate [stored ''a'' ''S'' ''2025-01-01T10:00:00Z'' ''x'' ''t'']
       (Some ''S'') (Some ''0001-01-01T00:00:30+05:00'') (Some []) (Some ''x'') (Some ''b'')
     = None
   \<and> find_duplicate [stored ''a'' ''S'' ''2025-01-01T10:00:00Z'' ''x'' ''t'']
       (Some ''S'') (Some ''2025-01-01T10:00:30Z'') (Some []) (Some ''x'') (Some ''b'')
     = Some ''a''
   \<and> find_duplicate [stored ''a'' ''S'' ''2025-01-01T10:00:00Z'' ''x'' ''t'']
       (Some ''S'') (Some ''2025-01-01T10:00:30Z'') (Some []) (Some ''x'') (Some ''a'')
     = None"
proof -
  let ?db = "[stored ''a'' ''S'' ''2025-01-01T10:00:00Z'' ''x'' ''t'']"
  have raised: "find_duplicate_body ?db
       (Some ''S'') (Some ''0001-01-01T00:00:30+05:00'') (Some []) (Some ''x'') (Some ''b'')
     = Inl OverflowError"
    by code_simp
  have found: "find_duplicate ?db
       (Some ''S'') (Some ''2025-01-01T10:00:30Z'') (Some []) (Some ''x'') (Some ''b'') \<noteq> None"
    by code_simp
  have excluded: "find_duplicate ?db
       (Some ''S'') (Some ''2025-01-01T10:00:30Z'') (Some []) (Some ''x'') (Some ''a'') = None"
    by code_simp
  from find_duplicate_total [of ?db "Some ''S''" "Some ''0001-01-01T00:00:30+05:00''" "Some []"
      "Some ''x''" "Some ''b''" OverflowError] raised
  have none: "find_duplicate ?db
       (Some ''S'') (Some ''0001-01-01T00:00:30+05:00'') (Some []) (Some ''x'') (Some ''b'') = None"
    by simp
  from find_duplicate_total [of ?db "Some ''S''" "Some ''2025-01-01T10:00:30Z''" "Some []"
      "Some ''x''" "Some ''b''"] found
  have "find_duplicate ?db
       (Some ''S'') (Some ''2025-01-01T10:00:30Z'') (Some []) (Some ''x'') (Some ''b'') = Some ''a''"
    by (auto simp: stored_def)
  with raised none excluded show ?thesis by simp
qed

text \<open>
  C4. The claim asks that the text window of the SELECT never hides a row that passes the
  check on UTC instants. The code does hide one: the window compares the stored text of
  \<open>start_time\<close> with two texts in UTC, so a row stored with the offset \<open>-08:00\<close> lies outside
  the window although it denotes the very instant of the candidate. The row and the
  candidate share subject, source and organizer, both times parse to the same UTC instant,
  and the Duplicate Finder returns \<open>None\<close>.
\<close>

theorem find_duplicate_misses_offset_row:
  "sql_eq (r_subject (stored ''a'' ''S'' ''2025-01-01T02:00:00-08:00'' ''x'' ''t'')) (Some ''S'')
   \<and> sql_eq (r_source (stored ''a'' ''S'' ''2025-01-01T02:00:00-08:00'' ''x'' ''t'')) (Some ''x'')
   \<and> or_text (r_organizer_email (stored ''a'' ''S'' ''2025-01-01T02:00:00-08:00'' ''x'' ''t'')) []
       = or_text (Some []) []
   \<and> map_option normalize_to_utc (parse_iso_datetime (Some ''2025-01-01T02:00:00-08:00''))
       = Some (Inr \<lparr>wall = 63871322400000000, tzinfo = Some 0\<rparr>)
   \<and> map_option normalize_to_utc (parse_iso_datetime (Some ''2025-01-01T10:00:00Z''))
       = Some (Inr \<lparr>wall = 63871322400000000, tzinfo = Some 0\<rparr>)
   \<and> find_duplicate [stored ''a'' ''S'' ''2025-01-01T02:00:00-08:00'' ''x'' ''t'']
       (Some ''S'') (Some ''2025-01-01T10:00:00Z'') (Some []) (Some ''x'') None = None"
  by code_simp

text \<open>
  C6, as the claim states it, fails: \<open>query_events\<close> copies \<open>subject\<close>, \<open>end_time\<close> and
  \<open>is_all_day\<close> from the row as they are, so a row holding NULL there is returned with
  \<open>None\<close> in those fields.
\<close>

theorem query_events_null_subject:
  "query_events
     \<lparr>appointments =
        [(stored ''a'' ''S'' ''2025-01-01T10:00:00Z'' ''x'' ''t'')
           \<lparr>r_subject := None, r_end_time := None, r_is_all_day := None\<rparr>],
      ignored_base_ids = [], ignored_event_ids = []\<rparr>
     (ymd2ord 2025 1 1) 0 30 None
   = Inr [\<lparr>o_id = ''a'', o_subject = None, o_start_time = Some ''2025-01-01T10:00:00Z'',
           o_end_time = None, o_location = Some [], o_organizer_email = Some [],
           o_organizer_name = Some [], o_attendees = Some ''[]'', o_body_preview = Some [],
           o_is_all_day = None, o_source = Some ''x''\<rparr>]"
  by code_simp

text \<open>
  C6, amended. Every Appointment returned by \<open>query_events\<close> comes from a stored row and has
  \<open>location\<close>, \<open>organizer_email\<close>, \<open>organizer_name\<close>, \<open>body_preview\<close> and \<open>source\<close> non-null,
  the empty string standing for a stored NULL, and \<open>attendees\<close> non-null, \<open>[]\<close> standing for
  a stored NULL or empty text; \<open>start_time\<close> is never null. \<open>subject\<close>, \<open>end_time\<close> and
  \<open>is_all_day\<close> are returned as stored.
\<close>

theorem query_events_normalized:
  assumes "query_events db today days_back days_ahead src = Inr events" "e \<in> set events"
  shows "\<exists>row\<in>set (appointments db).
           o_id e = r_id row
           \<and> o_location e = Some (case r_location row of None \<Rightarrow> [] | Some s \<Rightarrow> s)
           \<and> o_organizer_email e = Some (case r_organizer_email row of None \<Rightarrow> [] | Some s \<Rightarrow> s)
           \<and> o_organizer_name e = Some (case r_organizer_name row of None \<Rightarrow> [] | Some s \<Rightarrow> s)
           \<and> o_body_preview e = Some (case r_body_preview row of None \<Rightarrow> [] | Some s \<Rightarrow> s)
           \<and> o_source e = Some (case r_source row of None \<Rightarrow> [] | Some s \<Rightarrow> s)
           \<and> o_attendees e
               = Some (case r_attendees row of None \<Rightarrow> ''[]''
                       | Some s \<Rightarrow> if s = [] then ''[]'' else s)
           \<and> o_start_time e = r_start_time row \<and> o_start_time e \<noteq> None
           \<and> o_subject e = r_subject row \<and> o_end_time e = r_end_time row
           \<and> o_is_all_day e = r_is_all_day row"
proof -
  from query_events_rows [OF assms] obtain row where
    row: "row \<in> set (appointments db)" "e = to_event row" "r_start_time row \<noteq> None"
    by blast
  have "o_id e = r_id row" "o_start_time e = r_start_time row" "o_subject e = r_subject row"
      "o_end_time e = r_end_time row" "o_is_all_day e = r_is_all_day row"
    using row(2) by (simp_all add: to_event_def)
  moreover have "o_location e = Some (case r_location row of None \<Rightarrow> [] | Some s \<Rightarrow> s)"
      "o_organizer_email e = Some (case r_organizer_email row of None \<Rightarrow> [] | Some s \<Rightarrow> s)"
      "o_organizer_name e = Some (case r_organizer_name row of None \<Rightarrow> [] | Some s \<Rightarrow> s)"
      "o_body_preview e = Some (case r_body_preview row of None \<Rightarrow> [] | Some s \<Rightarrow> s)"
      "o_source e = Some (case r_source row of None \<Rightarrow> [] | Some s \<Rightarrow> s)"
    using row(2) by (simp_all add: to_event_def or_text_Some split: option.splits)
  moreover have "o_attendees e
      = Some (case r_attendees row of None \<Rightarrow> ''[]'' | Some s \<Rightarrow> if s = [] then ''[]'' else s)"
    using row(2) by (simp add: to_event_def or_text_Some)
  ultimately show ?thesis using row(1,3) by auto
qed

theorem query_events_normalized_witness:
  "\<exists>row\<in>set [(stored ''a'' ''S'' ''2025-01-01T10:00:00Z'' ''x'' ''t'')
                 \<lparr>r_location := None, r_attendees := None, r_source := None\<rparr>].
      o_location (to_event ((stored ''a'' ''S'' ''2025-01-01T10:00:00Z'' ''x'' ''t'')
                 \<lparr>r_location := None, r_attendees := None, r_source := None\<rparr>)) = Some []
      \<and> o_attendees (to_event ((stored ''a'' ''S'' ''2025-01-01T10:00:00Z'' ''x'' ''t'')
                 \<lparr>r_location := None, r_attendees := None, r_source := None\<rparr>)) = Some ''[]''
      \<and> o_source (to_event ((stored ''a'' ''S'' ''2025-01-01T10:00:00Z'' ''x'' ''t'')
                 \<lparr>r_location := None, r_attendees := None, r_source := None\<rparr>)) = Some []
      \<and> r_location row = None \<and> r_attendees row = None \<and> r_source row = None"
proof -
  let ?row = "(stored ''a'' ''S'' ''2025-01-01T10:00:00Z'' ''x'' ''t'')
                 \<lparr>r_location := None, r_attendees := None, r_source := None\<rparr>"
  let ?db = "\<lparr>appointments = [?row], ignored_base_ids = [], ignored_event_ids = []\<rparr>"
  have q: "query_events ?db (ymd2ord 2025 1 1) 0 30 None = Inr [to_event ?row]"
    by code_simp
  have m: "to_event ?row \<in> set [to_event ?row]" by simp
  from query_events_normalized [OF q m] show ?thesis
    by (simp add: stored_def)
qed

text \<open>
  C8. Suppression round trip. Take a stored occurrence \<open>row\<close> that lies in the date range of a
  query and whose id has the base id \<open>b\<close>, and let \<open>shown\<close> be what the query returns. After
  \<open>add_ignored_base_id\<close> for \<open>b\<close> the same query returns \<open>shown\<close> without the events of base id
  \<open>b\<close>, so the occurrence is not in it. After \<open>remove_ignored_base_id\<close> for \<open>b\<close> the query
  returns everything in \<open>shown\<close>, and it returns the occurrence, unless the occurrence is
  suppressed by its own id; when \<open>b\<close> was not suppressed before the add, it returns exactly
  \<open>shown\<close>. No event of \<open>shown\<close> has the id of a row of the occurrence-suppression table or
  the base id of a row of the series-suppression table, and after \<open>add_ignored_event_id\<close> for
  the occurrence's id the query returns \<open>shown\<close> without the events of that id.
\<close>

theorem suppression_round_trip:
  assumes "row \<in> set (appointments db)"
    and "date_window today days_back days_ahead = Inr (start_date_str, end_date_str)"
    and "in_range start_date_str end_date_str src row"
    and "get_base_id_from_event_id (r_id row) = b"
  shows "\<exists>shown restored.
      query_events db today days_back days_ahead src = Inr shown
    \<and> query_events (add_ignored_base_id db b subject reason now) today days_back days_ahead src
        = Inr (filter (\<lambda>e. get_base_id_from_event_id (o_id e) \<noteq> b) shown)
    \<and> to_event row \<notin> set (filter (\<lambda>e. get_base_id_from_event_id (o_id e) \<noteq> b) shown)
    \<and> query_events (remove_ignored_base_id (add_ignored_base_id db b subject reason now) b)
          today days_back days_ahead src
        = Inr restored
    \<and> set shown \<subseteq> set restored
    \<and> ((\<forall>x\<in>set (ignored_event_ids db). i_event_id x \<noteq> r_id row)
        \<longrightarrow> to_event row \<in> set restored)
    \<and> ((\<forall>x\<in>set (ignored_base_ids db). b_base_id x \<noteq> b) \<longrightarrow> restored = shown)
    \<and> (\<forall>e\<in>set shown. \<forall>x\<in>set (ignored_event_ids db). o_id e \<noteq> i_event_id x)
    \<and> (\<forall>e\<in>set shown. \<forall>x\<in>set (ignored_base_ids db).
          get_base_id_from_event_id (o_id e) \<noteq> b_base_id x)
    \<and> query_events (add_ignored_event_id db (r_id row) subject start_time reason now)
          today days_back days_ahead src
        = Inr (filter (\<lambda>e. o_id e \<noteq> r_id row) shown)"
proof -
  let ?rows = "select_range (appointments db) start_date_str end_date_str src"
  let ?added = "add_ignored_base_id db b subject reason now"
  let ?removed = "remove_ignored_base_id ?added b"
  let ?shown = "map to_event (filter (visible db) ?rows)"
  let ?restored = "map to_event (filter (visible ?removed) ?rows)"
  note window = assms(2)
  have in_rows: "row \<in> set ?rows"
    using assms(1,3) by (simp add: select_range_member)
  have q: "query_events db today days_back days_ahead src = Inr ?shown"
    by (rule query_events_window [OF window])
  have "query_events ?added today days_back days_ahead src
      = Inr (map to_event (filter (visible ?added) ?rows))"
    using query_events_window [OF window, of ?added] by (simp add: appointments_unchanged)
  also have "filter (visible ?added) ?rows
      = filter (\<lambda>r. get_base_id_from_event_id (r_id r) \<noteq> b) (filter (visible db) ?rows)"
    by (simp add: visible_add_ignored_base_id)
  finally have hidden: "query_events ?added today days_back days_ahead src
      = Inr (filter (\<lambda>e. get_base_id_from_event_id (o_id e) \<noteq> b) ?shown)"
    by (simp only: filter_map_to_event [of "\<lambda>i. get_base_id_from_event_id i \<noteq> b"])
  have absent: "to_event row \<notin> set (filter (\<lambda>e. get_base_id_from_event_id (o_id e) \<noteq> b) ?shown)"
    using assms(4) by (simp add: to_event_def)
  have r: "query_events ?removed today days_back days_ahead src = Inr ?restored"
    using query_events_window [OF window, of ?removed] by (simp add: appointments_unchanged)
  have keep: "visible ?removed r" if "visible db r" for r
    using that unfolding visible_remove_add_ignored_base_id by (simp add: visible_iff)
  have sub: "set ?shown \<subseteq> set ?restored"
    using keep by auto
  have again: "to_event row \<in> set ?restored"
    if "\<forall>x\<in>set (ignored_event_ids db). i_event_id x \<noteq> r_id row"
  proof -
    have "visible ?removed row"
      using that assms(4) unfolding visible_remove_add_ignored_base_id by auto
    with in_rows show ?thesis by simp
  qed
  have same: "?restored = ?shown" if "\<forall>x\<in>set (ignored_base_ids db). b_base_id x \<noteq> b"
  proof -
    have "visible ?removed r = visible db r" for r
      using that unfolding visible_remove_add_ignored_base_id by (auto simp: visible_iff)
    then have "visible ?removed = visible db" by (simp add: fun_eq_iff)
    then show ?thesis by simp
  qed
  have ids: "\<forall>e\<in>set ?shown. \<forall>x\<in>set (ignored_event_ids db). o_id e \<noteq> i_event_id x"
    by (auto simp: visible_iff to_event_def)
  have bases: "\<forall>e\<in>set ?shown. \<forall>x\<in>set (ignored_base_ids db).
      get_base_id_from_event_id (o_id e) \<noteq> b_base_id x"
    by (auto simp: visible_iff to_event_def)
  let ?ignored = "add_ignored_event_id db (r_id row) subject start_time reason now"
  have "query_events ?ignored today days_back days_ahead src
      = Inr (map to_event (filter (visible ?ignored) ?rows))"
    using query_events_window [OF window, of ?ignored] by (simp add: appointments_unchanged)
  also have "filter (visible ?ignored) ?rows
      = filter (\<lambda>r. r_id r \<noteq> r_id row) (filter (visible db) ?rows)"
    by (simp add: visible_add_ignored_event_id)
  finally have one: "query_events ?ignored today days_back days_ahead src
      = Inr (filter (\<lambda>e. o_id e \<noteq> r_id row) ?shown)"
    by (simp only: filter_map_to_event [of "\<lambda>i. i \<noteq> r_id row"])
  show ?thesis
    apply (rule exI [of _ ?shown])
    apply (rule exI [of _ ?restored])
    using q hidden absent r sub again same ids bases one by blast
qed

theorem suppression_round_trip_witness:
  "query_events
     \<lparr>appointments =
        [stored ''series1_20251201T150000'' ''X'' ''2025-12-01T15:00:00Z'' ''x'' ''t'',
         stored ''other'' ''Y'' ''2025-12-02T09:00:00Z'' ''x'' ''t'',
         stored ''gone'' ''Z'' ''2025-12-03T09:00:00Z'' ''x'' ''t''],
      ignored_base_ids = [],
      ignored_event_ids =
        [\<lparr>i_event_id = ''gone'', i_subject = Some ''Z'',
          i_start_time = Some ''2025-12-03T09:00:00Z'', i_ignored_at = ''t0'',
          i_reason = Some ''User ignored''\<rparr>]\<rparr>
     (ymd2ord 2025 11 30) 0 7 None
     = Inr [to_event (stored ''series1_20251201T150000'' ''X'' ''2025-12-01T15:00:00Z'' ''x'' ''t''),
            to_event (stored ''other'' ''Y'' ''2025-12-02T09:00:00Z'' ''x'' ''t'')]
   \<and> query_events
       (add_ignored_base_id
          \<lparr>appointments =
             [stored ''series1_20251201T150000'' ''X'' ''2025-12-01T15:00:00Z'' ''x'' ''t'',
              stored ''other'' ''Y'' ''2025-12-02T09:00:00Z'' ''x'' ''t'',
              stored ''gone'' ''Z'' ''2025-12-03T09:00:00Z'' ''x'' ''t''],
           ignored_base_ids = [],
           ignored_event_ids =
             [\<lparr>i_event_id = ''gone'', i_subject = Some ''Z'',
               i_start_time = Some ''2025-12-03T09:00:00Z'', i_ignored_at = ''t0'',
               i_reason = Some ''User ignored''\<rparr>]\<rparr>
          ''series1'' (Some ''X'') (Some ''User ignored'') ''t1'')
       (ymd2ord 2025 11 30) 0 7 None
     = Inr [to_event (stored ''other'' ''Y'' ''2025-12-02T09:00:00Z'' ''x'' ''t'')]
   \<and> query_events
       (remove_ignored_base_id
          (add_ignored_base_id
             \<lparr>appointments =
                [stored ''series1_20251201T150000'' ''X'' ''2025-12-01T15:00:00Z'' ''x'' ''t'',
                 stored ''other'' ''Y'' ''2025-12-02T09:00:00Z'' ''x'' ''t'',
                 stored ''gone'' ''Z'' ''2025-12-03T09:00:00Z'' ''x'' ''t''],
              ignored_base_ids = [],
              ignored_event_ids =
                [\<lparr>i_event_id = ''gone'', i_subject = Some ''Z'',
                  i_start_time = Some ''2025-12-03T09:00:00Z'', i_ignored_at = ''t0'',
                  i_reason = Some ''User ignored''\<rparr>]\<rparr>
             ''series1'' (Some ''X'') (Some ''User ignored'') ''t1'')
          ''series1'')
       (ymd2ord 2025 11 30) 0 7 None
     = Inr [to_event (stored ''series1_20251201T150000'' ''X'' ''2025-12-01T15:00:00Z'' ''x'' ''t''),
            to_event (stored ''other'' ''Y'' ''2025-12-02T09:00:00Z'' ''x'' ''t'')]
   \<and> query_events
       (add_ignored_event_id
          \<lparr>appointments =
             [stored ''series1_20251201T150000'' ''X'' ''2025-12-01T15:00:00Z'' ''x'' ''t'',
              stored ''other'' ''Y'' ''2025-12-02T09:00:00Z'' ''x'' ''t'',
              stored ''gone'' ''Z'' ''2025-12-03T09:00:00Z'' ''x'' ''t''],
           ignored_base_ids = [],
           ignored_event_ids =
             [\<lparr>i_event_id = ''gone'', i_subject = Some ''Z'',
               i_start_time = Some ''2025-12-03T09:00:00Z'', i_ignored_at = ''t0'',
               i_reason = Some ''User ignored''\<rparr>]\<rparr>
          ''series1_20251201T150000'' (Some ''X'') (Some ''2025-12-01T15:00:00Z'')
          (Some ''User ignored'') ''t1'')
       (ymd2ord 2025 11 30) 0 7 None
     = Inr [to_event (stored ''other'' ''Y'' ''2025-12-02T09:00:00Z'' ''x'' ''t'')]"
proof -
  let ?row = "stored ''series1_20251201T150000'' ''X'' ''2025-12-01T15:00:00Z'' ''x'' ''t''"
  let ?other = "stored ''other'' ''Y'' ''2025-12-02T09:00:00Z'' ''x'' ''t''"
  let ?gone = "stored ''gone'' ''Z'' ''2025-12-03T09:00:00Z'' ''x'' ''t''"
  let ?db = "\<lparr>appointments = [?row, ?other, ?gone], ignored_base_ids = [],
      ignored_event_ids =
        [\<lparr>i_event_id = ''gone'', i_subject = Some ''Z'',
          i_start_time = Some ''2025-12-03T09:00:00Z'', i_ignored_at = ''t0'',
          i_reason = Some ''User ignored''\<rparr>]\<rparr>"
  have h1: "?row \<in> set (appointments ?db)" by simp
  have h2: "date_window (ymd2ord 2025 11 30) 0 7 = Inr (''2025-11-30'', ''2025-12-08'')"
    by code_simp
  have h3: "in_range ''2025-11-30'' ''2025-12-08'' None ?row"
    by code_simp
  have h4: "get_base_id_from_event_id (r_id ?row) = ''series1''"
    by code_simp
  have before: "query_events ?db (ymd2ord 2025 11 30) 0 7 None
      = Inr [to_event ?row, to_event ?other]"
    by code_simp
  have f1: "filter (\<lambda>e. get_base_id_from_event_id (o_id e) \<noteq> ''series1'')
      [to_event ?row, to_event ?other] = [to_event ?other]"
    by code_simp
  have f2: "filter (\<lambda>e. o_id e \<noteq> ''series1_20251201T150000'')
      [to_event ?row, to_event ?other] = [to_event ?other]"
    by code_simp
  have id: "r_id ?row = ''series1_20251201T150000''"
    by (simp add: stored_def)
  from suppression_round_trip [OF h1 h2 h3 h4, of "Some ''X''" "Some ''User ignored''" "''t1''"
      "Some ''2025-12-01T15:00:00Z''"]
  obtain shown restored where
    a: "query_events ?db (ymd2ord 2025 11 30) 0 7 None = Inr shown"
    and b: "query_events (add_ignored_base_id ?db ''series1'' (Some ''X'') (Some ''User ignored'')
        ''t1'') (ymd2ord 2025 11 30) 0 7 None
      = Inr (filter (\<lambda>e. get_base_id_from_event_id (o_id e) \<noteq> ''series1'') shown)"
    and c: "query_events (remove_ignored_base_id (add_ignored_base_id ?db ''series1'' (Some ''X'')
        (Some ''User ignored'') ''t1'') ''series1'') (ymd2ord 2025 11 30) 0 7 None
      = Inr restored"
    and d: "(\<forall>x\<in>set (ignored_base_ids ?db). b_base_id x \<noteq> ''series1'') \<longrightarrow> restored = shown"
    and e: "query_events (add_ignored_event_id ?db (r_id ?row) (Some ''X'')
        (Some ''2025-12-01T15:00:00Z'') (Some ''User ignored'') ''t1'')
        (ymd2ord 2025 11 30) 0 7 None
      = Inr (filter (\<lambda>e. o_id e \<noteq> r_id ?row) shown)"
    by blast
  from a before have shown: "shown = [to_event ?row, to_event ?other]" by simp
  from d have restored: "restored = shown" by simp
  note b' = b [unfolded shown f1]
  note c' = c [unfolded restored shown]
  note e' = e [unfolded id shown f2]
  from before b' c' e' show ?thesis by (intro conjI)
qed

text \<open>
  C9. Frame condition on writes. A pass of the loop that returns either leaves table and
  counts alone, or counts an update, or counts an insert. A counted update targets the
  candidate's own id or the id the Duplicate Finder returned: every row keeps its \<open>id\<close> and
  its \<open>created_at\<close>, the rows with the target id get \<open>updated_at = now\<close>, and all other rows
  are unchanged. A counted insert appends one row with a new id whose \<open>created_at\<close> and
  \<open>updated_at\<close> are both \<open>now\<close>. Over a whole call, the rows that were stored before keep
  \<open>id\<close> and \<open>created_at\<close>, and the rows the call added carry \<open>created_at = updated_at = now\<close>;
  \<open>now\<close> is the UTC clock reading taken once per call.
\<close>

theorem update_frame:
  "(save_one committed rules now ev (db, saved_count, updated_count)
       = Inr (db', saved_count', updated_count')
     \<longrightarrow>
       (db' = db \<and> saved_count' = saved_count \<and> updated_count' = updated_count)
       \<or> (updated_count' = updated_count + 1 \<and> saved_count' = saved_count
          \<and> length db' = length db
          \<and> (\<exists>target.
                (get_none (e_id ev) = Some target
                 \<or> find_duplicate committed (get (e_subject ev) []) (get (e_start_time ev) [])
                      (get (e_organizer_email ev) []) (get (e_source ev) []) (get_none (e_id ev))
                    = Some target)
                \<and> (\<forall>i<length db.
                      r_id (db' ! i) = r_id (db ! i)
                      \<and> r_created_at (db' ! i) = r_created_at (db ! i)
                      \<and> (if r_id (db ! i) = target then r_updated_at (db' ! i) = Some now
                         else db' ! i = db ! i))))
       \<or> (saved_count' = saved_count + 1 \<and> updated_count' = updated_count
          \<and> (\<exists>row. db' = db @ [row] \<and> get_none (e_id ev) = Some (r_id row)
                \<and> r_id row \<notin> r_id ` set db
                \<and> r_created_at row = Some now \<and> r_updated_at row = r_created_at row)))
   \<and> (save_appointments table appts deduplication_rules now = (Inr counts, table')
     \<longrightarrow> length table \<le> length table'
        \<and> (\<forall>i<length table. r_id (table' ! i) = r_id (table ! i)
              \<and> r_created_at (table' ! i) = r_created_at (table ! i))
        \<and> (\<forall>i. length table \<le> i \<and> i < length table'
              \<longrightarrow> r_created_at (table' ! i) = Some now
                  \<and> r_updated_at (table' ! i) = Some now))"
proof (rule conjI; rule impI)
  assume step: "save_one committed rules now ev (db, saved_count, updated_count)
       = Inr (db', saved_count', updated_count')"
  from save_one_outcome [OF step] consider
      (skip) "(db', saved_count', updated_count') = (db, saved_count, updated_count)"
    | (update) target where
        "get_none (e_id ev) = Some target
         \<or> find_duplicate committed (get (e_subject ev) []) (get (e_start_time ev) [])
              (get (e_organizer_email ev) []) (get (e_source ev) []) (get_none (e_id ev))
            = Some target"
        "counted_update (db, saved_count, updated_count) target ev now
           = Inr (db', saved_count', updated_count')"
    | (insert) event_id where
        "get_none (e_id ev) = Some event_id" "select_by_id db event_id = None"
        "counted_insert (db, saved_count, updated_count) event_id ev now
           = Inr (db', saved_count', updated_count')"
    by blast
  then show "(db' = db \<and> saved_count' = saved_count \<and> updated_count' = updated_count)
       \<or> (updated_count' = updated_count + 1 \<and> saved_count' = saved_count
          \<and> length db' = length db
          \<and> (\<exists>target.
                (get_none (e_id ev) = Some target
                 \<or> find_duplicate committed (get (e_subject ev) []) (get (e_start_time ev) [])
                      (get (e_organizer_email ev) []) (get (e_source ev) []) (get_none (e_id ev))
                    = Some target)
                \<and> (\<forall>i<length db.
                      r_id (db' ! i) = r_id (db ! i)
                      \<and> r_created_at (db' ! i) = r_created_at (db ! i)
                      \<and> (if r_id (db ! i) = target then r_updated_at (db' ! i) = Some now
                         else db' ! i = db ! i))))
       \<or> (saved_count' = saved_count + 1 \<and> updated_count' = updated_count
          \<and> (\<exists>row. db' = db @ [row] \<and> get_none (e_id ev) = Some (r_id row)
                \<and> r_id row \<notin> r_id ` set db
                \<and> r_created_at row = Some now \<and> r_updated_at row = r_created_at row))"
  proof cases
    case skip
    then show ?thesis by simp
  next
    case update
    from counted_update_Inr [OF update(2)] obtain att where
      db': "db' = map (\<lambda>row. if r_id row = target then write_fields ev att now row else row) db"
      and cnt: "saved_count' = saved_count" "updated_count' = updated_count + 1"
      by auto
    have "\<forall>i<length db.
            r_id (db' ! i) = r_id (db ! i)
            \<and> r_created_at (db' ! i) = r_created_at (db ! i)
            \<and> (if r_id (db ! i) = target then r_updated_at (db' ! i) = Some now
               else db' ! i = db ! i)"
      using db' by (simp add: write_fields_frame)
    moreover have "length db' = length db" using db' by simp
    ultimately show ?thesis using update(1) cnt by blast
  next
    case insert
    from counted_insert_Inr [OF insert(3)] obtain row where
      row: "db' = db @ [row]" "r_id row = event_id" "r_created_at row = Some now"
        "r_updated_at row = Some now"
      and cnt: "saved_count' = saved_count + 1" "updated_count' = updated_count"
      by auto
    have "r_id row \<notin> r_id ` set db"
      using insert(2) row(2) by (auto simp: select_by_id_None)
    with row cnt insert(1) show ?thesis by auto
  qed
next
  assume call: "save_appointments table appts deduplication_rules now = (Inr counts, table')"
  show "length table \<le> length table'
        \<and> (\<forall>i<length table. r_id (table' ! i) = r_id (table ! i)
              \<and> r_created_at (table' ! i) = r_created_at (table ! i))
        \<and> (\<forall>i. length table \<le> i \<and> i < length table'
              \<longrightarrow> r_created_at (table' ! i) = Some now
                  \<and> r_updated_at (table' ! i) = Some now)"
  proof (cases "appts = []")
    case True
    with call show ?thesis by (auto simp: save_appointments_def)
  next
    case False
    with call obtain rules s u where
      "save_loop table rules now appts (table, 0, 0) = Inr (table', s, u)"
      by (auto simp: save_appointments_def Let_def split: sum.splits)
    from save_loop_frame [OF this] show ?thesis by blast
  qed
qed

theorem update_frame_witness:
  "save_one [stored ''A'' ''S'' ''2025-01-01T10:00:00Z'' ''x'' ''t1''] no_rules ''t2''
       (candidate ''A'' ''S2'' ''2025-01-01T11:00:00Z'' ''x'')
       ([stored ''A'' ''S'' ''2025-01-01T10:00:00Z'' ''x'' ''t1''], 0, 0)
     = Inr ([(stored ''A'' ''S2'' ''2025-01-01T11:00:00Z'' ''x'' ''t1'')
               \<lparr>r_updated_at := Some ''t2''\<rparr>], 0, 1)
   \<and> save_appointments [stored ''A'' ''S'' ''2025-01-01T10:00:00Z'' ''x'' ''t1'']
       [candidate ''A'' ''S2'' ''2025-01-01T11:00:00Z'' ''x'',
        candidate ''B'' ''S3'' ''2025-01-02T11:00:00Z'' ''x''] None ''t2''
     = (Inr (1, 1),
        [(stored ''A'' ''S2'' ''2025-01-01T11:00:00Z'' ''x'' ''t1'')\<lparr>r_updated_at := Some ''t2''\<rparr>,
         stored ''B'' ''S3'' ''2025-01-02T11:00:00Z'' ''x'' ''t2''])
   \<and> r_created_at ([(stored ''A'' ''S2'' ''2025-01-01T11:00:00Z'' ''x'' ''t1'')
                       \<lparr>r_updated_at := Some ''t2''\<rparr>] ! 0) = Some ''t1''
   \<and> r_updated_at ([(stored ''A'' ''S2'' ''2025-01-01T11:00:00Z'' ''x'' ''t1'')
                       \<lparr>r_updated_at := Some ''t2''\<rparr>] ! 0) = Some ''t2''"
proof -
  let ?old = "stored ''A'' ''S'' ''2025-01-01T10:00:00Z'' ''x'' ''t1''"
  let ?new = "(stored ''A'' ''S2'' ''2025-01-01T11:00:00Z'' ''x'' ''t1'')\<lparr>r_updated_at := Some ''t2''\<rparr>"
  let ?ev = "candidate ''A'' ''S2'' ''2025-01-01T11:00:00Z'' ''x''"
  let ?ev2 = "candidate ''B'' ''S3'' ''2025-01-02T11:00:00Z'' ''x''"
  let ?added = "stored ''B'' ''S3'' ''2025-01-02T11:00:00Z'' ''x'' ''t2''"
  have step: "save_one [?old] no_rules ''t2'' ?ev ([?old], 0, 0) = Inr ([?new], 0, 1)"
    by code_simp
  have call: "save_appointments [?old] [?ev, ?ev2] None ''t2'' = (Inr (1, 1), [?new, ?added])"
    by code_simp
  note frame = update_frame [of "[?old]" no_rules "''t2''" ?ev "[?old]" 0 0 "[?new]" 0 1
      "[?old]" "[?ev, ?ev2]" None "(1, 1)" "[?new, ?added]"]
  from frame call have "\<forall>i<length [?old]. r_created_at ([?new, ?added] ! i) = r_created_at ([?old] ! i)"
    by blast
  then have "r_created_at ?new = Some ''t1''" by (simp add: stored_def)
  moreover from frame step have "\<exists>target. \<forall>i<length [?old].
      if r_id ([?old] ! i) = target then r_updated_at ([?new] ! i) = Some ''t2''
      else [?new] ! i = [?old] ! i"
    by auto
  then have "r_updated_at ?new = Some ''t2''" by (auto simp: stored_def split: if_splits)
  ultimately show ?thesis using step call by simp
qed




text \<open>
  C3, as the claim states it, fails. The table holds one record; a candidate with another id
  and the same subject, source and organizer starts 30 seconds later, so the Duplicate Finder
  returns the record's id; no rules are passed, so the source of the batch is empty. The
  claim asks for the record to be overwritten and one update to be counted; the call returns
  the counts \<open>(0, 0)\<close> and leaves the table as it was.
\<close>

theorem empty_source_duplicate_not_overwritten:
  "select_by_id [stored ''a'' ''S'' ''2025-01-01T10:00:00Z'' ''cal1'' ''t1''] ''b'' = None
   \<and> find_duplicate [stored ''a'' ''S'' ''2025-01-01T10:00:00Z'' ''cal1'' ''t1'']
       (Some ''S'') (Some ''2025-01-01T10:00:30Z'') (Some []) (Some ''cal1'') (Some ''b'')
     = Some ''a''
   \<and> rule_source no_rules = []
   \<and> save_appointments [stored ''a'' ''S'' ''2025-01-01T10:00:00Z'' ''cal1'' ''t1'']
       [(candidate ''b'' ''S'' ''2025-01-01T10:00:30Z'' ''cal1'')
          \<lparr>e_location := Given (Some ''Room 2'')\<rparr>] None ''t2''
     = (Inr (0, 0), [stored ''a'' ''S'' ''2025-01-01T10:00:00Z'' ''cal1'' ''t1''])"
  by code_simp

text \<open>
  C3, amended. In the duplicate path the empty-source default is to skip: when a candidate
  whose id is not stored matches an existing record through the Duplicate Finder, and the
  source of the batch (the \<open>source\<close> of the rules) or the duplicate record's source is absent
  or empty, the pass writes nothing and counts nothing; a call with that single candidate
  returns \<open>(0, 0)\<close> and leaves the table as it was.
\<close>

theorem empty_source_duplicate_skipped:
  assumes "get_none (e_id ev) = Some event_id" "event_id \<noteq> []"
    and "select_by_id db event_id = None"
    and "find_duplicate committed (get (e_subject ev) []) (get (e_start_time ev) [])
           (get (e_organizer_email ev) []) (get (e_source ev) []) (Some event_id)
         = Some duplicate_id" "duplicate_id \<noteq> []"
    and "rule_source rules = []
         \<or> \<not> truthy (case select_by_id db duplicate_id of
                        Some row \<Rightarrow> r_source row
                      | None \<Rightarrow> Some [])"
  shows "save_one committed rules now ev (db, saved_count, updated_count)
           = Inr (db, saved_count, updated_count)
         \<and> (committed = db
            \<longrightarrow> save_appointments db [ev] (Some rules) now = (Inr (0, 0), db))"
proof -
  have one: "save_one committed rules now ev (db, s, u) = Inr (db, s, u)" for s u
    by (rule save_one_duplicate_no_source [OF assms])
  then show ?thesis
    by (auto simp: save_appointments_def)
qed

theorem empty_source_duplicate_skipped_witness:
  "save_one [stored ''a'' ''S'' ''2025-01-01T10:00:00Z'' '''' ''t1'']
       \<lparr>skip_same_source = False, precedence = [(''cal2'', 5)], rule_source = ''cal2''\<rparr> ''t2''
       (candidate ''b'' ''S'' ''2025-01-01T10:00:30Z'' '''')
       ([stored ''a'' ''S'' ''2025-01-01T10:00:00Z'' '''' ''t1''], 3, 4)
     = Inr ([stored ''a'' ''S'' ''2025-01-01T10:00:00Z'' '''' ''t1''], 3, 4)
   \<and> save_appointments [stored ''a'' ''S'' ''2025-01-01T10:00:00Z'' '''' ''t1'']
       [candidate ''b'' ''S'' ''2025-01-01T10:00:30Z'' '''']
       (Some \<lparr>skip_same_source = False, precedence = [(''cal2'', 5)], rule_source = ''cal2''\<rparr>)
       ''t2''
     = (Inr (0, 0), [stored ''a'' ''S'' ''2025-01-01T10:00:00Z'' '''' ''t1''])"
proof -
  let ?old = "stored ''a'' ''S'' ''2025-01-01T10:00:00Z'' '''' ''t1''"
  let ?ev = "candidate ''b'' ''S'' ''2025-01-01T10:00:30Z'' ''''"
  let ?rules = "\<lparr>skip_same_source = False, precedence = [(''cal2'', 5)], rule_source = ''cal2''\<rparr>"
  have h1: "get_none (e_id ?ev) = Some ''b''" by (simp add: candidate_def get_none_def)
  have h2: "''b'' \<noteq> []" by simp
  have h3: "select_by_id [?old] ''b'' = None" by (simp add: select_by_id_def stored_def)
  have dup: "find_duplicate [?old] (Some ''S'') (Some ''2025-01-01T10:00:30Z'') (Some [])
      (Some []) (Some ''b'') = Some ''a''"
    by code_simp
  have args: "get (e_subject ?ev) [] = Some ''S''"
      "get (e_start_time ?ev) [] = Some ''2025-01-01T10:00:30Z''"
      "get (e_organizer_email ?ev) [] = Some []" "get (e_source ?ev) [] = Some []"
    by (simp_all add: candidate_def empty_event_def get_def)
  have h4: "find_duplicate [?old] (get (e_subject ?ev) []) (get (e_start_time ?ev) [])
      (get (e_organizer_email ?ev) []) (get (e_source ?ev) []) (Some ''b'') = Some ''a''"
    using dup by (simp only: args)
  have h5: "''a'' \<noteq> []" by simp
  have h6: "rule_source ?rules = []
      \<or> \<not> truthy (case select_by_id [?old] ''a'' of Some row \<Rightarrow> r_source row | None \<Rightarrow> Some [])"
    by (simp add: select_by_id_def stored_def truthy_def)
  from empty_source_duplicate_skipped [OF h1 h2 h3 h4 h5 h6, of "''t2''" 3 4]
  show ?thesis by simp
qed

text \<open>
  C1, as the claim states it, fails. Both sources have priority 1 and \<open>skip_same_source\<close> is
  false. The candidate \<open>a\<close> of source \<open>cal1\<close> is saved first; the candidate \<open>b\<close> of source
  \<open>cal2\<close>, same subject and start time, is saved next, in a call of its own or in the same
  batch. The second candidate is inserted and counted, and the table holds two rows. The
  same happens when \<open>b\<close> arrives in the \<open>cal2\<close> batch carrying the source field \<open>cal1\<close>, so that
  the Duplicate Finder does return the id \<open>a\<close>.
\<close>

theorem precedence_tie_inserts_second:
  "save_appointments [] [candidate ''a'' ''S'' ''2025-01-01T10:00:00Z'' ''cal1'']
       (Some \<lparr>skip_same_source = False, precedence = [(''cal1'', 1), (''cal2'', 1)],
              rule_source = ''cal1''\<rparr>) ''t1''
     = (Inr (1, 0), [stored ''a'' ''S'' ''2025-01-01T10:00:00Z'' ''cal1'' ''t1''])
   \<and> save_appointments [stored ''a'' ''S'' ''2025-01-01T10:00:00Z'' ''cal1'' ''t1'']
       [candidate ''b'' ''S'' ''2025-01-01T10:00:00Z'' ''cal2'']
       (Some \<lparr>skip_same_source = False, precedence = [(''cal1'', 1), (''cal2'', 1)],
              rule_source = ''cal2''\<rparr>) ''t2''
     = (Inr (1, 0), [stored ''a'' ''S'' ''2025-01-01T10:00:00Z'' ''cal1'' ''t1'',
                     stored ''b'' ''S'' ''2025-01-01T10:00:00Z'' ''cal2'' ''t2''])
   \<and> save_appointments []
       [candidate ''a'' ''S'' ''2025-01-01T10:00:00Z'' ''cal1'',
        candidate ''b'' ''S'' ''2025-01-01T10:00:00Z'' ''cal2'']
       (Some \<lparr>skip_same_source = False, precedence = [(''cal1'', 1), (''cal2'', 1)],
              rule_source = ''cal2''\<rparr>) ''t1''
     = (Inr (2, 0), [stored ''a'' ''S'' ''2025-01-01T10:00:00Z'' ''cal1'' ''t1'',
                     stored ''b'' ''S'' ''2025-01-01T10:00:00Z'' ''cal2'' ''t1''])
   \<and> find_duplicate [stored ''a'' ''S'' ''2025-01-01T10:00:00Z'' ''cal1'' ''t1'']
       (Some ''S'') (Some ''2025-01-01T10:00:00Z'') (Some []) (Some ''cal1'') (Some ''b'')
     = Some ''a''
   \<and> save_appointments [stored ''a'' ''S'' ''2025-01-01T10:00:00Z'' ''cal1'' ''t1'']
       [candidate ''b'' ''S'' ''2025-01-01T10:00:00Z'' ''cal1'']
       (Some \<lparr>skip_same_source = False, precedence = [(''cal1'', 1), (''cal2'', 1)],
              rule_source = ''cal2''\<rparr>) ''t2''
     = (Inr (1, 0), [stored ''a'' ''S'' ''2025-01-01T10:00:00Z'' ''cal1'' ''t1'',
                     stored ''b'' ''S'' ''2025-01-01T10:00:00Z'' ''cal1'' ''t2''])"
  by code_simp

text \<open>
  C1, amended. Two candidates with the same subject and start times within the tolerance
  window, different ids and the sources \<open>cal1\<close> and \<open>cal2\<close> (any two different sources, and
  any start times): the Duplicate Finder searches only the rows of the candidate's own
  source, so the second candidate is not matched with the first one's row. Saved one call after the other into an empty store, or in one batch, both are inserted
  and counted, and the store holds two rows, whatever the priorities and \<open>skip_same_source\<close>.
\<close>

theorem distinct_sources_both_inserted:
  assumes "id1 \<noteq> []" "id2 \<noteq> []" "id1 \<noteq> id2" "src1 \<noteq> src2"
  shows "save_appointments [] [candidate id1 subj start1 src1] rules1 t1
           = (Inr (1, 0), [stored id1 subj start1 src1 t1])
       \<and> save_appointments [stored id1 subj start1 src1 t1] [candidate id2 subj start2 src2]
             rules2 t2
           = (Inr (1, 0), [stored id1 subj start1 src1 t1, stored id2 subj start2 src2 t2])
       \<and> save_appointments [] [candidate id1 subj start1 src1, candidate id2 subj start2 src2]
             rules1 t1
           = (Inr (2, 0), [stored id1 subj start1 src1 t1, stored id2 subj start2 src2 t1])"
proof (intro conjI)
  note first = save_one_candidate_inserted [of id1 "[]" "[]" src1 _ _ subj start1 0 0, simplified]
  show "save_appointments [] [candidate id1 subj start1 src1] rules1 t1
           = (Inr (1, 0), [stored id1 subj start1 src1 t1])"
    using assms(1) by (simp add: save_appointments_def first)
next
  let ?row1 = "stored id1 subj start1 src1 t1"
  have "save_one [?row1] rules t2 (candidate id2 subj start2 src2) ([?row1], 0, 0)
      = Inr ([?row1] @ [stored id2 subj start2 src2 t2], 0 + 1, 0)" for rules
    using assms by (intro save_one_candidate_inserted) (auto simp: stored_def)
  then show "save_appointments [?row1] [candidate id2 subj start2 src2] rules2 t2
           = (Inr (1, 0), [?row1, stored id2 subj start2 src2 t2])"
    by (simp add: save_appointments_def)
next
  let ?row1 = "stored id1 subj start1 src1 t1"
  have one: "save_one [] rules t1 (candidate id1 subj start1 src1) ([], 0, 0)
      = Inr ([] @ [?row1], 0 + 1, 0)" for rules
    using assms by (intro save_one_candidate_inserted) auto
  have two: "save_one [] rules t1 (candidate id2 subj start2 src2) ([?row1], 1, 0)
      = Inr ([?row1] @ [stored id2 subj start2 src2 t1], 1 + 1, 0)" for rules
    using assms by (intro save_one_candidate_inserted) (auto simp: stored_def)
  show "save_appointments [] [candidate id1 subj start1 src1, candidate id2 subj start2 src2]
             rules1 t1
           = (Inr (2, 0), [?row1, stored id2 subj start2 src2 t1])"
    using one two by (simp add: save_appointments_def)
qed

theorem distinct_sources_both_inserted_witness:
  "save_appointments [] [candidate ''a'' ''S'' ''2025-01-01T10:00:00Z'' ''cal1'']
       (Some \<lparr>skip_same_source = True, precedence = [(''cal1'', 1), (''cal2'', 1)],
              rule_source = ''cal1''\<rparr>) ''t1''
     = (Inr (1, 0), [stored ''a'' ''S'' ''2025-01-01T10:00:00Z'' ''cal1'' ''t1''])
   \<and> save_appointments [stored ''a'' ''S'' ''2025-01-01T10:00:00Z'' ''cal1'' ''t1'']
       [candidate ''b'' ''S'' ''2025-01-01T10:00:20Z'' ''cal2'']
       (Some \<lparr>skip_same_source = False, precedence = [(''cal1'', 1), (''cal2'', 1)],
              rule_source = ''cal2''\<rparr>) ''t2''
     = (Inr (1, 0), [stored ''a'' ''S'' ''2025-01-01T10:00:00Z'' ''cal1'' ''t1'',
                     stored ''b'' ''S'' ''2025-01-01T10:00:20Z'' ''cal2'' ''t2''])"
proof -
  have h: "''a'' \<noteq> []" "''b'' \<noteq> []" "''a'' \<noteq> ''b''" "''cal1'' \<noteq> ''cal2''"
    by simp_all
  from distinct_sources_both_inserted [OF h, of "''S''" "''2025-01-01T10:00:00Z''"
      "Some \<lparr>skip_same_source = True, precedence = [(''cal1'', 1), (''cal2'', 1)],
              rule_source = ''cal1''\<rparr>" "''t1''" "''2025-01-01T10:00:20Z''"
      "Some \<lparr>skip_same_source = False, precedence = [(''cal1'', 1), (''cal2'', 1)],
              rule_source = ''cal2''\<rparr>" "''t2''"]
  show ?thesis by simp
qed

text \<open>
  C2, as the claim states it, fails. The first candidate of the batch passes its attendees
  as a list, which the storage engine cannot bind, so its INSERT raises; the second candidate
  is well formed and, saved alone, is inserted. The claim asks that the batch still process
  the second candidate. The loop has no handler: the call raises, and the table is the
  one before the call. A failing candidate at the end of a batch likewise undoes the insert
  of the candidate before it.
\<close>

theorem failure_is_not_isolated:
  "save_appointments []
       [(candidate ''a'' ''S'' ''2025-01-01T10:00:00Z'' ''x'')
          \<lparr>e_attendees := Given (Some Unserialized)\<rparr>,
        candidate ''b'' ''T'' ''2025-01-02T10:00:00Z'' ''x''] None ''t''
     = (Inl ProgrammingError, [])
   \<and> save_appointments [] [candidate ''b'' ''T'' ''2025-01-02T10:00:00Z'' ''x''] None ''t''
     = (Inr (1, 0), [stored ''b'' ''T'' ''2025-01-02T10:00:00Z'' ''x'' ''t''])
   \<and> save_appointments []
       [candidate ''b'' ''T'' ''2025-01-02T10:00:00Z'' ''x'',
        (candidate ''a'' ''S'' ''2025-01-01T10:00:00Z'' ''x'')
          \<lparr>e_attendees := Given (Some Unserialized)\<rparr>] None ''t''
     = (Inl ProgrammingError, [])"
  by code_simp

text \<open>
  C2, amended. A failure while one candidate is processed is not isolated: when the
  candidates before it have been processed and its own pass raises, \<open>save_appointments\<close>
  raises that error, whatever candidates follow; no totals are returned, no later candidate
  is processed, and the writes made for the earlier candidates of the batch are rolled back,
  so the table is the one before the call.
\<close>

theorem failure_aborts_batch:
  assumes "rules = (case deduplication_rules of None \<Rightarrow> no_rules | Some r \<Rightarrow> r)"
    and "save_loop db rules now before (db, 0, 0) = Inr st"
    and "save_one db rules now ev st = Inl e"
  shows "save_appointments db (before @ ev # rest) deduplication_rules now = (Inl e, db)"
proof -
  have "save_loop db rules now (before @ ev # rest) (db, 0, 0) = Inl e"
    using assms(2,3) by (simp add: save_loop_append)
  then show ?thesis
    using assms(1) by (simp add: save_appointments_def)
qed

theorem failure_aborts_batch_witness:
  "save_loop [] no_rules ''t'' [candidate ''b'' ''T'' ''2025-01-02T10:00:00Z'' ''x''] ([], 0, 0)
     = Inr ([stored ''b'' ''T'' ''2025-01-02T10:00:00Z'' ''x'' ''t''], 1, 0)
   \<and> save_one [] no_rules ''t''
       ((candidate ''a'' ''S'' ''2025-01-01T10:00:00Z'' ''x'')
          \<lparr>e_attendees := Given (Some Unserialized)\<rparr>)
       ([stored ''b'' ''T'' ''2025-01-02T10:00:00Z'' ''x'' ''t''], 1, 0)
     = Inl ProgrammingError
   \<and> save_appointments []
       ([candidate ''b'' ''T'' ''2025-01-02T10:00:00Z'' ''x'']
        @ (candidate ''a'' ''S'' ''2025-01-01T10:00:00Z'' ''x'')
            \<lparr>e_attendees := Given (Some Unserialized)\<rparr>
        # [candidate ''c'' ''U'' ''2025-01-03T10:00:00Z'' ''x'']) None ''t''
     = (Inl ProgrammingError, [])"
proof -
  let ?good = "candidate ''b'' ''T'' ''2025-01-02T10:00:00Z'' ''x''"
  let ?bad = "(candidate ''a'' ''S'' ''2025-01-01T10:00:00Z'' ''x'')
          \<lparr>e_attendees := Given (Some Unserialized)\<rparr>"
  let ?row = "stored ''b'' ''T'' ''2025-01-02T10:00:00Z'' ''x'' ''t''"
  have h1: "no_rules = (case None of None \<Rightarrow> no_rules | Some r \<Rightarrow> r)" by simp
  have h2: "save_loop [] no_rules ''t'' [?good] ([], 0, 0) = Inr ([?row], 1, 0)"
    by code_simp
  have h3: "save_one [] no_rules ''t'' ?bad ([?row], 1, 0) = Inl ProgrammingError"
    by code_simp
  from failure_aborts_batch [OF h1 h2 h3, of "[candidate ''c'' ''U'' ''2025-01-03T10:00:00Z'' ''x'']"]
    h2 h3
  show ?thesis by simp
qed

end
